theory Spec2Isabelle
  imports Complex_Main "HOL-Library.Sublist" "HOL-Library.Multiset"
    "HOL-Library.Char_ord" "HOL-Library.List_Lexorder"
begin

section \<open>JavaScript strings\<close>

text \<open>
  A JavaScript string is modelled as a \<^typ>\<open>string\<close> whose characters are the code
  units U+0000 .. U+00FF. On that range \<open>toLowerCase\<close> changes exactly the
  letters A-Z and the Latin-1 capitals U+00C0 .. U+00DE (U+00D7, the multiplication
  sign, apart), and the white space of \<open>trim\<close> and of the regular expression class
  \<open>\s\<close> is TAB, LF, VT, FF, CR, SPACE and NBSP.
\<close>

definition isSpace :: "char \<Rightarrow> bool" where
  "isSpace c = (let n = (of_char c :: nat) in (9 \<le> n \<and> n \<le> 13) \<or> n = 32 \<or> n = 160)"

definition isWordChar :: "char \<Rightarrow> bool" where
  "isWordChar c = (let n = (of_char c :: nat) in
     (48 \<le> n \<and> n \<le> 57) \<or> (65 \<le> n \<and> n \<le> 90) \<or> n = 95 \<or> (97 \<le> n \<and> n \<le> 122))"

text \<open>
  The lower-case letter is 32 above the capital; in both ranges of capitals bit 5 is
  clear, so adding 32 sets it.
\<close>

definition lowerChar :: "char \<Rightarrow> char" where
  "lowerChar c = (let n = (of_char c :: nat) in
     if (65 \<le> n \<and> n \<le> 90) \<or> (192 \<le> n \<and> n \<le> 222 \<and> n \<noteq> 215)
     then (case c of Char b0 b1 b2 b3 b4 b5 b6 b7 \<Rightarrow> Char b0 b1 b2 b3 b4 True b6 b7)
     else c)"

definition toLowerCase :: "string \<Rightarrow> string" where
  "toLowerCase s = map lowerChar s"

definition trimStart :: "string \<Rightarrow> string" where
  "trimStart s = dropWhile isSpace s"

definition trim :: "string \<Rightarrow> string" where
  "trim s = rev (dropWhile isSpace (rev (dropWhile isSpace s)))"

text \<open>\<open>f.startsWith(k)\<close> and \<open>f.includes(k)\<close>, by comparison of code units.\<close>

definition startsWith :: "string \<Rightarrow> string \<Rightarrow> bool" where
  "startsWith f k = (take (length k) f = k)"

fun str_includes :: "string \<Rightarrow> string \<Rightarrow> bool" where
  "str_includes [] k = (k = [])"
| "str_includes (c # cs) k = (startsWith (c # cs) k \<or> str_includes cs k)"

section \<open>scorer.js\<close>

datatype matchType = exact | startsWithT | afterSpace | middle

record matchScores =
  sc_exact :: rat
  sc_startsWith :: rat
  sc_afterSpace :: rat
  sc_middle :: rat

record scoreMatch =
  mtype :: matchType
  score :: rat

text \<open>
  Scores are JavaScript numbers; the model takes them as exact rationals, so that
  \<open>0.6\<close> is \<open>3/5\<close> and \<open>0.3\<close> is \<open>3/10\<close>.
\<close>

definition DEFAULT_matchScores :: matchScores where
  "DEFAULT_matchScores =
     \<lparr>sc_exact = 3/2, sc_startsWith = 1, sc_afterSpace = 3/5, sc_middle = 3/10\<rparr>"

definition detectMatch :: "string \<Rightarrow> string \<Rightarrow> matchScores \<Rightarrow> scoreMatch option" where
  "detectMatch kw field scores =
     (if kw = [] \<or> field = [] then None
      else let k = trim (toLowerCase kw); f = trim (toLowerCase field) in
        if k = [] \<or> f = [] then None
        else if f = k then Some \<lparr>mtype = exact, score = sc_exact scores\<rparr>
        else if startsWith f k then Some \<lparr>mtype = startsWithT, score = sc_startsWith scores\<rparr>
        else if str_includes f (CHR '' '' # k) then Some \<lparr>mtype = afterSpace, score = sc_afterSpace scores\<rparr>
        else if str_includes f k then Some \<lparr>mtype = middle, score = sc_middle scores\<rparr>
        else None)"

text \<open>
  Exceptions are values: a function that can throw returns \<open>error + 'a\<close>, with
  \<open>Inl\<close> the exception. A field handed to the scorer is any JavaScript value
  (\<open>jv\<close>, below); \<open>detectMatch\<close> above is the function on strings, and
  \<open>detectMatchV\<close> is the same function on a value: a falsy field is no match, and a
  truthy field that is not a string has no \<open>toLowerCase\<close>, which throws.
  \<open>NotModelled\<close> is no exception of the code: it marks the one place where the code
  goes on with a value the model cannot hold (a score that is \<open>NaN\<close>, see
  \<open>getWeightOf\<close>), so that a run of the model that completes is a run of the
  code.
\<close>

datatype error = TypeError | SyntaxError | AbortError | OtherError | NotModelled

datatype jv =
    JUndefined | JNull | JBool bool | JNum int | JStr string
  | JArr "jv list" | JObj "(string \<times> jv) list"

fun truthy :: "jv \<Rightarrow> bool" where
  "truthy JUndefined = False"
| "truthy JNull = False"
| "truthy (JBool b) = b"
| "truthy (JNum n) = (n \<noteq> 0)"
| "truthy (JStr s) = (s \<noteq> [])"
| "truthy (JArr xs) = True"
| "truthy (JObj kvs) = True"

fun nullish :: "jv \<Rightarrow> bool" where
  "nullish JUndefined = True"
| "nullish JNull = True"
| "nullish v = False"

definition detectMatchV :: "string \<Rightarrow> jv \<Rightarrow> matchScores \<Rightarrow> error + scoreMatch option" where
  "detectMatchV kw field scores =
     (if kw = [] \<or> \<not> truthy field then Inr None
      else case field of JStr f \<Rightarrow> Inr (detectMatch kw f scores) | _ \<Rightarrow> Inl TypeError)"

text \<open>\<open>if (m && (!best || m.score > best.score)) best = m\<close>\<close>

definition better :: "scoreMatch option \<Rightarrow> scoreMatch option \<Rightarrow> scoreMatch option" where
  "better m best =
     (case m of None \<Rightarrow> best
      | Some mm \<Rightarrow> (case best of None \<Rightarrow> Some mm
                    | Some b \<Rightarrow> if score mm > score b then Some mm else Some b))"

fun bestFieldMatch_loop ::
  "string \<Rightarrow> jv list \<Rightarrow> matchScores \<Rightarrow> scoreMatch option \<Rightarrow> error + scoreMatch option" where
  "bestFieldMatch_loop kw [] scores best = Inr best"
| "bestFieldMatch_loop kw (f # fs) scores best =
     (case detectMatchV kw f scores of
        Inl e \<Rightarrow> Inl e
      | Inr m \<Rightarrow> bestFieldMatch_loop kw fs scores (better m best))"

definition bestFieldMatch :: "string \<Rightarrow> jv list \<Rightarrow> matchScores \<Rightarrow> error + scoreMatch option" where
  "bestFieldMatch kw flds scores = bestFieldMatch_loop kw flds scores None"

fun scoreQuery_loop ::
  "string list \<Rightarrow> jv list \<Rightarrow> matchScores \<Rightarrow> scoreMatch option \<Rightarrow> error + scoreMatch option" where
  "scoreQuery_loop [] flds scores bestMatch = Inr bestMatch"
| "scoreQuery_loop (kw # kws) flds scores bestMatch =
     (case bestFieldMatch kw flds scores of
        Inl e \<Rightarrow> Inl e
      | Inr m \<Rightarrow> scoreQuery_loop kws flds scores (better m bestMatch))"

definition scoreQuery ::
  "string list \<Rightarrow> string \<Rightarrow> jv list \<Rightarrow> matchScores \<Rightarrow> error + scoreMatch option" where
  "scoreQuery keywords phrase flds scores =
     (case (if length keywords > 1 then bestFieldMatch phrase flds scores else Inr None) of
        Inl e \<Rightarrow> Inl e
      | Inr phraseMatch \<Rightarrow>
          (case scoreQuery_loop keywords flds scores None of
             Inl e \<Rightarrow> Inl e
           | Inr bestMatch \<Rightarrow>
               Inr (case phraseMatch of
                      None \<Rightarrow> bestMatch
                    | Some a \<Rightarrow> (case bestMatch of
                                  None \<Rightarrow> Some a
                                | Some b \<Rightarrow> if score b > score a then Some b else Some a))))"

text \<open>
  \<open>+x.toFixed(6)\<close>: the nearest multiple of \<open>10\<^sup>-\<^sup>6\<close>, a tie going away from
  zero.
\<close>

definition toFixed6 :: "rat \<Rightarrow> rat" where
  "toFixed6 x =
     (if x < 0 then - (of_int \<lfloor>(- x) * 1000000 + 1/2\<rfloor> / 1000000)
      else of_int \<lfloor>x * 1000000 + 1/2\<rfloor> / 1000000)"

text \<open>
  A scored item is \<open>{...item, _score, _matchType, _matchScore}\<close>: the item and the
  three flds the scorer adds.
\<close>

record 'a scored =
  item :: 'a
  u_score :: rat
  u_matchType :: matchType
  u_matchScore :: rat

text \<open>
  \<open>rawModuleWeight\<close> is a number or undefined (\<open>None\<close>);
  \<open>rawModuleWeight || 1\<close> replaces undefined and zero by one.
\<close>

definition weightOr1 :: "rat option \<Rightarrow> rat" where
  "weightOr1 w = (case w of None \<Rightarrow> 1 | Some x \<Rightarrow> if x = 0 then 1 else x)"

definition computeScore ::
  "'a \<Rightarrow> string list \<Rightarrow> string \<Rightarrow> jv list \<Rightarrow> rat option \<Rightarrow> matchScores \<Rightarrow> error + 'a scored option" where
  "computeScore it keywords phrase flds rawModuleWeight scores =
     (case scoreQuery keywords phrase flds scores of
        Inl e \<Rightarrow> Inl e
      | Inr None \<Rightarrow> Inr None
      | Inr (Some match) \<Rightarrow>
          (let finalScore = score match * weightOr1 rawModuleWeight in
           Inr (Some \<lparr>item = it, u_score = toFixed6 finalScore,
                      u_matchType = mtype match, u_matchScore = toFixed6 (score match)\<rparr>)))"

text \<open>
  \<open>Array.prototype.sort\<close> is stable; with the comparator \<open>b._score - a._score\<close> it
  sorts by decreasing score and keeps the input order of equal scores.
\<close>

definition sortByScoreDesc :: "'a scored list \<Rightarrow> 'a scored list" where
  "sortByScoreDesc xs = sort_key (\<lambda>x. - u_score x) xs"

fun rankResults_loop ::
  "'a list \<Rightarrow> string list \<Rightarrow> string \<Rightarrow> ('a \<Rightarrow> error + jv list) \<Rightarrow> ('a \<Rightarrow> error + rat option)
     \<Rightarrow> matchScores \<Rightarrow> 'a scored list \<Rightarrow> error + 'a scored list" where
  "rankResults_loop [] keywords phrase getFields getWeight scores scoredAcc = Inr scoredAcc"
| "rankResults_loop (it # items) keywords phrase getFields getWeight scores scoredAcc =
     (case getFields it of
        Inl e \<Rightarrow> Inl e
      | Inr flds \<Rightarrow>
          (case getWeight it of
             Inl e \<Rightarrow> Inl e
           | Inr w \<Rightarrow>
               (case computeScore it keywords phrase flds w scores of
                  Inl e \<Rightarrow> Inl e
                | Inr None \<Rightarrow>
                    rankResults_loop items keywords phrase getFields getWeight scores scoredAcc
                | Inr (Some r) \<Rightarrow>
                    rankResults_loop items keywords phrase getFields getWeight scores
                      (scoredAcc @ [r]))))"

definition rankResults ::
  "'a list \<Rightarrow> string list \<Rightarrow> string \<Rightarrow> ('a \<Rightarrow> error + jv list) \<Rightarrow> ('a \<Rightarrow> error + rat option)
     \<Rightarrow> matchScores \<Rightarrow> error + 'a scored list" where
  "rankResults items keywords phrase getFields getWeight scores =
     (case rankResults_loop items keywords phrase getFields getWeight scores [] of
        Inl e \<Rightarrow> Inl e
      | Inr scoredAcc \<Rightarrow> Inr (sortByScoreDesc scoredAcc))"

text \<open>
  The \<open>Map\<close> of \<open>deduplicateBy\<close> keeps its keys in the order of their first
  insertion; \<open>seen.set\<close> on a key that is present replaces the value in place.
\<close>

fun mapSet :: "('k \<times> 'v) list \<Rightarrow> 'k \<Rightarrow> 'v \<Rightarrow> ('k \<times> 'v) list" where
  "mapSet [] k v = [(k, v)]"
| "mapSet ((k', v') # kvs) k v = (if k' = k then (k, v) # kvs else (k', v') # mapSet kvs k v)"

fun deduplicateBy_loop ::
  "'a scored list \<Rightarrow> ('a scored \<Rightarrow> error + 'k) \<Rightarrow> ('k \<times> 'a scored) list
     \<Rightarrow> error + ('k \<times> 'a scored) list" where
  "deduplicateBy_loop [] getKey seen = Inr seen"
| "deduplicateBy_loop (it # items) getKey seen =
     (case getKey it of
        Inl e \<Rightarrow> Inl e
      | Inr k \<Rightarrow>
          deduplicateBy_loop items getKey
            (case map_of seen k of
               None \<Rightarrow> mapSet seen k it
             | Some old \<Rightarrow> if u_score it > u_score old then mapSet seen k it else seen))"

definition deduplicateBy ::
  "'a scored list \<Rightarrow> ('a scored \<Rightarrow> error + 'k) \<Rightarrow> error + 'a scored list" where
  "deduplicateBy items getKey =
     (case deduplicateBy_loop items getKey [] of
        Inl e \<Rightarrow> Inl e
      | Inr seen \<Rightarrow> Inr (sortByScoreDesc (map snd seen)))"

section \<open>JavaScript values\<close>

text \<open>
  The data of the search slice (chats, users, participants, server records) are
  values as \<open>JSON.parse\<close> produces them; numbers are integers (identifiers and
  type codes). \<open>js_String\<close> is \<open>String(v)\<close>, which is also the conversion of a
  template literal and of a property key. \<open>getProp v k\<close> reads the own property \<open>k\<close>
  of a value that is not null or undefined: a primitive or an array has none of the
  properties this code reads.
\<close>

definition digitChar :: "nat \<Rightarrow> char" where
  "digitChar d = ''0123456789'' ! d"

fun showNat :: "nat \<Rightarrow> string" where
  "showNat n =
     (if n < 10 then [digitChar n] else showNat (n div 10) @ [digitChar (n mod 10)])"

definition showInt :: "int \<Rightarrow> string" where
  "showInt i = (if i < 0 then CHR ''-'' # showNat (nat (- i)) else showNat (nat i))"

fun joinWith :: "string \<Rightarrow> string list \<Rightarrow> string" where
  "joinWith sep [] = []"
| "joinWith sep [x] = x"
| "joinWith sep (x # y # ys) = x @ sep @ joinWith sep (y # ys)"

fun js_String :: "jv \<Rightarrow> string" where
  "js_String JUndefined = ''undefined''"
| "js_String JNull = ''null''"
| "js_String (JBool b) = (if b then ''true'' else ''false'')"
| "js_String (JNum n) = showInt n"
| "js_String (JStr s) = s"
| "js_String (JArr xs) = joinWith '','' (map (\<lambda>x. if nullish x then [] else js_String x) xs)"
| "js_String (JObj kvs) = ''[object Object]''"

fun getProp :: "jv \<Rightarrow> string \<Rightarrow> jv" where
  "getProp (JObj kvs) k = (case map_of kvs k of Some v \<Rightarrow> v | None \<Rightarrow> JUndefined)"
| "getProp v k = JUndefined"

text \<open>
  \<open>a === b\<close>. Two arrays or two objects are equal only when they are the same
  reference; decoded data never shares a reference with the value it is compared to,
  so the model answers false there.
\<close>

fun strictEq :: "jv \<Rightarrow> jv \<Rightarrow> bool" where
  "strictEq JUndefined JUndefined = True"
| "strictEq JNull JNull = True"
| "strictEq (JBool a) (JBool b) = (a = b)"
| "strictEq (JNum a) (JNum b) = (a = b)"
| "strictEq (JStr a) (JStr b) = (a = b)"
| "strictEq a b = False"

text \<open>\<open>a || b\<close> and \<open>a ?? b\<close> on values.\<close>

definition orElse :: "jv \<Rightarrow> jv \<Rightarrow> jv" where
  "orElse a b = (if truthy a then a else b)"

definition nullishOr :: "jv \<Rightarrow> jv \<Rightarrow> jv" where
  "nullishOr a b = (if nullish a then b else a)"

text \<open>
  \<open>{...v}\<close> copies the own enumerable properties: those of an object, the indexed
  elements of an array, the indexed characters of a string, and nothing of any other
  value. Assigning a property that is present keeps its place (\<open>mapSet\<close>).
\<close>

fun spread :: "jv \<Rightarrow> (string \<times> jv) list" where
  "spread (JObj kvs) = kvs"
| "spread (JArr xs) = zip (map showNat [0..<length xs]) xs"
| "spread (JStr s) = zip (map showNat [0..<length s]) (map (\<lambda>c. JStr [c]) s)"
| "spread v = []"

text \<open>A JavaScript \<open>Set\<close> of strings, in insertion order.\<close>

definition setAdd :: "string \<Rightarrow> string list \<Rightarrow> string list" where
  "setAdd x s = (if x \<in> set s then s else s @ [x])"

text \<open>\<open>xs.find(p)\<close>, \<open>xs.map(f)\<close>, \<open>xs.filter(p)\<close> and \<open>xs.some(p)\<close> with a callback that can throw.\<close>

fun findE :: "('a \<Rightarrow> error + bool) \<Rightarrow> 'a list \<Rightarrow> error + 'a option" where
  "findE p [] = Inr None"
| "findE p (x # xs) =
     (case p x of Inl e \<Rightarrow> Inl e | Inr b \<Rightarrow> if b then Inr (Some x) else findE p xs)"

fun mapE :: "('a \<Rightarrow> error + 'b) \<Rightarrow> 'a list \<Rightarrow> error + 'b list" where
  "mapE f [] = Inr []"
| "mapE f (x # xs) =
     (case f x of
        Inl e \<Rightarrow> Inl e
      | Inr y \<Rightarrow> (case mapE f xs of Inl e \<Rightarrow> Inl e | Inr ys \<Rightarrow> Inr (y # ys)))"

fun filterE :: "('a \<Rightarrow> error + bool) \<Rightarrow> 'a list \<Rightarrow> error + 'a list" where
  "filterE p [] = Inr []"
| "filterE p (x # xs) =
     (case p x of
        Inl e \<Rightarrow> Inl e
      | Inr b \<Rightarrow> (case filterE p xs of
                    Inl e \<Rightarrow> Inl e
                  | Inr ys \<Rightarrow> Inr (if b then x # ys else ys)))"

fun someE :: "('a \<Rightarrow> error + bool) \<Rightarrow> 'a list \<Rightarrow> error + bool" where
  "someE p [] = Inr False"
| "someE p (x # xs) =
     (case p x of Inl e \<Rightarrow> Inl e | Inr b \<Rightarrow> if b then Inr True else someE p xs)"

section \<open>searchSlice.js: participants and chat types\<close>

text \<open>
  \<open>JSON.parse\<close> is a parameter of the model: \<open>None\<close> is its \<open>SyntaxError\<close>.
  \<open>otherUser?.zuid || null\<close> is \<open>zuidOrNull\<close>.
\<close>

definition zuidOrNull :: "jv \<Rightarrow> jv" where
  "zuidOrNull otherUser =
     orElse (if nullish otherUser then JUndefined else getProp otherUser ''zuid'') JNull"

definition differsFrom :: "jv \<Rightarrow> jv \<Rightarrow> error + bool" where
  "differsFrom loggedInZuid p =
     (if nullish p then Inl TypeError
      else Inr (js_String (getProp p ''zuid'') \<noteq> js_String loggedInZuid))"

definition dnameIs :: "jv \<Rightarrow> jv \<Rightarrow> error + bool" where
  "dnameIs chatTitle p =
     (if nullish p then Inl TypeError else Inr (strictEq (getProp p ''dname'') chatTitle))"

definition getOtherUserId_try :: "(string \<Rightarrow> jv option) \<Rightarrow> jv \<Rightarrow> jv \<Rightarrow> jv \<Rightarrow> error + jv" where
  "getOtherUserId_try JSON_parse summary loggedInZuid chatTitle =
     (case (case summary of
              JStr s \<Rightarrow> (case JSON_parse s of None \<Rightarrow> Inl SyntaxError | Some v \<Rightarrow> Inr v)
            | _ \<Rightarrow> Inr (orElse summary (JArr []))) of
        Inl e \<Rightarrow> Inl e
      | Inr (JArr participants) \<Rightarrow>
          (case (if truthy loggedInZuid
                 then (case findE (differsFrom loggedInZuid) participants of
                         Inl e \<Rightarrow> Inl e
                       | Inr None \<Rightarrow> Inr JUndefined
                       | Inr (Some p) \<Rightarrow> Inr p)
                 else Inr loggedInZuid) of
             Inl e \<Rightarrow> Inl e
           | Inr a \<Rightarrow>
               if truthy a then Inr (zuidOrNull a)
               else
                 (case (if truthy chatTitle
                        then (case findE (dnameIs chatTitle) participants of
                                Inl e \<Rightarrow> Inl e
                              | Inr None \<Rightarrow> Inr JUndefined
                              | Inr (Some p) \<Rightarrow> Inr p)
                        else Inr chatTitle) of
                    Inl e \<Rightarrow> Inl e
                  | Inr b \<Rightarrow>
                      if truthy b then Inr (zuidOrNull b)
                      else Inr (zuidOrNull (case participants of [p] \<Rightarrow> p | _ \<Rightarrow> JNull))))
      | Inr _ \<Rightarrow> Inr JNull)"

definition getOtherUserId :: "(string \<Rightarrow> jv option) \<Rightarrow> jv \<Rightarrow> jv \<Rightarrow> jv \<Rightarrow> jv" where
  "getOtherUserId JSON_parse summary loggedInZuid chatTitle =
     (case getOtherUserId_try JSON_parse summary loggedInZuid chatTitle of
        Inl e \<Rightarrow> JNull
      | Inr v \<Rightarrow> v)"

definition chatTypeToModule :: "jv \<Rightarrow> string" where
  "chatTypeToModule chatType =
     (let t = js_String chatType in
      if t = ''8'' then ''channels''
      else if t = ''1'' then ''users''
      else if t = ''11'' then ''threads''
      else if t = ''9'' then ''bot''
      else '''')"

section \<open>searchSlice.js: constants, field resolvers, dedup key\<close>

definition DEFAULT_MODULE_WEIGHTS :: "(string \<times> rat) list" where
  "DEFAULT_MODULE_WEIGHTS =
     [(''users'', 3/2), (''chats'', 7/5), (''channels'', 6/5), (''department'', 11/10),
      (''messages'', 1), (''files'', 19/20), (''bots'', 9/10), (''threads'', 17/20),
      (''widgets'', 3/4), (''apps'', 3/4), (''connections'', 3/5), (''settings'', 3/5)]"

definition MAX_CLIENT_CHATS :: nat where "MAX_CLIENT_CHATS = 500"

definition MAX_CLIENT_USERS :: nat where "MAX_CLIENT_USERS = 100"

definition CACHE_TIMEOUT_MS :: int where "CACHE_TIMEOUT_MS = 10 * 60 * 1000"

text \<open>
  \<open>MODULE_FIELD_MAP\<close>, \<open>DEFAULT_MODULE_WEIGHTS\<close> and the \<open>moduleWeights\<close> of a
  payload are plain objects, so a lookup \<open>table[item._module]\<close> that finds no own
  property goes on to \<open>Object.prototype\<close>. These are its property names.
\<close>

definition objectPrototypeKeys :: "string list" where
  "objectPrototypeKeys =
     [''constructor'', ''__defineGetter__'', ''__defineSetter__'', ''hasOwnProperty'',
      ''__lookupGetter__'', ''__lookupSetter__'', ''isPrototypeOf'', ''propertyIsEnumerable'',
      ''toString'', ''valueOf'', ''__proto__'', ''toLocaleString'']"

text \<open>
  \<open>(MODULE_FIELD_MAP[item._module] ?? DEFAULT_FIELDS)(item).filter(Boolean)\<close>. For
  a module tag that names a member of \<open>Object.prototype\<close> the resolver is that
  member: called as a plain function on the item it throws a \<open>TypeError\<close> or
  returns a value without \<open>filter\<close> (\<open>constructor\<close> returns the item,
  \<open>toString\<close> a string), and \<open>__proto__\<close> is not a function; each way the
  call ends in a \<open>TypeError\<close>.
\<close>

definition getDefaultResolveFields :: "jv \<Rightarrow> error + jv list" where
  "getDefaultResolveFields it =
     (let m = js_String (getProp it ''_module'') in
      if m \<in> set objectPrototypeKeys then Inl TypeError
      else Inr (filter truthy
        (if m = ''users'' then [getProp it ''full_name'', getProp it ''email'']
         else if m = ''chats'' then
           [getProp it ''dname'', getProp it ''recipantssummary'', getProp it ''recipientssumm'',
            getProp it ''name'', getProp it ''title'']
         else if m = ''channels'' then [getProp it ''title'']
         else if m = ''messages'' then
           [getProp it ''message'', getProp it ''msg'', getProp it ''ctitle'']
         else [getProp it ''name'', getProp it ''title'', getProp it ''description'',
               getProp it ''full_name''])))"

text \<open>
  A result is a client item, or a server item with its score. The properties the
  default dedup key reads are those of the item itself.
\<close>

datatype result = ClientItem jv | ServerItem "jv scored"

fun baseOf :: "result \<Rightarrow> jv" where
  "baseOf (ClientItem c) = c"
| "baseOf (ServerItem s) = item s"


text \<open>
  \<open>Math.random()\<close> is outside the code, and every call of the function draws
  afresh: \<open>draw\<close> is the text of the number drawn by this call (it is read only
  when the item has neither \<open>id\<close> nor \<open>name\<close>).
\<close>

definition getDefaultDedupKey :: "string \<Rightarrow> result \<Rightarrow> error + string" where
  "getDefaultDedupKey draw r =
     (let it = baseOf r;
          name = orElse (getProp it ''full_name'') (orElse (getProp it ''name'') (getProp it ''title''));
          generic =
            js_String (nullishOr (getProp it ''_module'') (JStr ''unknown'')) @ ''::'' @
            (if \<not> nullish (getProp it ''id'') then js_String (getProp it ''id'')
             else if \<not> nullish (getProp it ''name'') then js_String (getProp it ''name'')
             else draw)
      in if strictEq (getProp it ''_module'') (JStr ''users'') \<and> truthy name
         then (case name of
                 JStr n \<Rightarrow> Inr (''users::name::'' @ toLowerCase n)
               | _ \<Rightarrow> Inl TypeError)
         else Inr generic)"

section \<open>searchSlice.js: exclusion sets\<close>

fun buildExclusionSets_chats ::
  "(string \<Rightarrow> jv option) \<Rightarrow> jv \<Rightarrow> jv list \<Rightarrow> string list \<times> string list
     \<Rightarrow> error + string list \<times> string list" where
  "buildExclusionSets_chats JSON_parse loggedUserZuid [] sets = Inr sets"
| "buildExclusionSets_chats JSON_parse loggedUserZuid (chat # chats) (existingChatIds, existingUserIds) =
     (if nullish chat then Inl TypeError
      else
        let ids = (if truthy (getProp chat ''chatid'')
                   then setAdd (js_String (getProp chat ''chatid'')) existingChatIds
                   else existingChatIds);
            otherZuid = getOtherUserId JSON_parse (getProp chat ''recipantssummary'')
                          loggedUserZuid (getProp chat ''title'');
            uids = (if js_String (getProp chat ''chat_type'') = ''1'' \<and> truthy otherZuid
                    then setAdd (js_String otherZuid) existingUserIds
                    else existingUserIds)
        in buildExclusionSets_chats JSON_parse loggedUserZuid chats (ids, uids))"

fun buildExclusionSets_users :: "jv list \<Rightarrow> string list \<Rightarrow> error + string list" where
  "buildExclusionSets_users [] existingUserIds = Inr existingUserIds"
| "buildExclusionSets_users (u # users) existingUserIds =
     (if nullish u then Inl TypeError
      else buildExclusionSets_users users
             (if truthy (getProp u ''zuid'')
              then setAdd (js_String (getProp u ''zuid'')) existingUserIds
              else existingUserIds))"

definition buildExclusionSets ::
  "(string \<Rightarrow> jv option) \<Rightarrow> jv list \<Rightarrow> jv list \<Rightarrow> jv \<Rightarrow> error + string list \<times> string list" where
  "buildExclusionSets JSON_parse chats users loggedUserZuid =
     (case buildExclusionSets_chats JSON_parse loggedUserZuid chats ([], []) of
        Inl e \<Rightarrow> Inl e
      | Inr (existingChatIds, uids) \<Rightarrow>
          (case buildExclusionSets_users users uids of
             Inl e \<Rightarrow> Inl e
           | Inr existingUserIds \<Rightarrow> Inr (existingChatIds, existingUserIds)))"

section \<open>searchSlice.js: the local search stage\<close>

text \<open>\<open>title.replace(/^[@#]/, '')\<close>\<close>

definition stripMarker :: "string \<Rightarrow> string" where
  "stripMarker t =
     (case t of [] \<Rightarrow> [] | c # cs \<Rightarrow> if c = CHR ''@'' \<or> c = CHR ''#'' then cs else t)"

text \<open>
  The callback of \<open>chats.map\<close>. \<open>c.title.replace\<close> throws when \<open>c\<close> is null or
  undefined, and when the title is not a string: no other value has a \<open>replace\<close>
  method.
\<close>

definition clientChat :: "(string \<Rightarrow> jv option) \<Rightarrow> jv \<Rightarrow> jv \<Rightarrow> error + jv" where
  "clientChat JSON_parse loggedUserZuid c =
     (if nullish c then Inl TypeError
      else case getProp c ''title'' of
        JStr t \<Rightarrow>
          Inr (JObj
            (mapSet
              (mapSet
                (mapSet
                  (mapSet (spread c) ''title'' (JStr (stripMarker t)))
                  ''_module'' (JStr (chatTypeToModule (getProp c ''chat_type''))))
                ''_source'' (JStr ''client''))
              ''id''
              (if js_String (getProp c ''chat_type'') = ''1''
               then orElse (getOtherUserId JSON_parse (getProp c ''recipantssummary'')
                              loggedUserZuid (getProp c ''title''))
                           (getProp c ''chatid'')
               else getProp c ''chatid'')))
      | _ \<Rightarrow> Inl TypeError)"

text \<open>\<open>c.title?.toLowerCase().startsWith(queryLower)\<close>, on a mapped chat.\<close>

definition chatMatches :: "string \<Rightarrow> jv \<Rightarrow> bool" where
  "chatMatches queryLower c =
     (case getProp c ''title'' of JStr t \<Rightarrow> startsWith (toLowerCase t) queryLower | _ \<Rightarrow> False)"

text \<open>
  \<open>(b.score || 0) - (a.score || 0)\<close>: a chat's \<open>score\<close>, when present, is taken to
  be a number or a boolean.
\<close>

definition scoreNum :: "jv \<Rightarrow> int" where
  "scoreNum c =
     (case getProp c ''score'' of JNum n \<Rightarrow> n | JBool b \<Rightarrow> (if b then 1 else 0) | _ \<Rightarrow> 0)"

definition clientUser :: "jv \<Rightarrow> error + jv" where
  "clientUser u =
     (if nullish u then Inl TypeError
      else Inr (JObj
        (mapSet
          (mapSet (mapSet (spread u) ''_module'' (JStr ''users'')) ''_source'' (JStr ''client''))
          ''id''
          (orElse (getProp u ''Zuid'') (orElse (getProp u ''zuid'') (getProp u ''id''))))))"

text \<open>
  The callback of \<open>users.filter\<close>. Both \<open>toLowerCase\<close> calls are made before the
  result is combined; each throws on a truthy value that is not a string.
\<close>

definition userMatches :: "string \<Rightarrow> string list \<Rightarrow> jv \<Rightarrow> error + bool" where
  "userMatches queryLower clientChatZuids u =
     (case orElse (getProp u ''full_name'') (orElse (getProp u ''display_name'') (JStr '''')) of
        JStr n \<Rightarrow>
          (case orElse (getProp u ''email'') (JStr '''') of
             JStr e \<Rightarrow>
               Inr ((startsWith (toLowerCase n) queryLower \<or> startsWith (toLowerCase e) queryLower)
                    \<and> js_String (getProp u ''id'') \<notin> set clientChatZuids)
           | _ \<Rightarrow> Inl TypeError)
      | _ \<Rightarrow> Inl TypeError)"

definition runClientSearch ::
  "(string \<Rightarrow> jv option) \<Rightarrow> jv list \<Rightarrow> jv list \<Rightarrow> string \<Rightarrow> jv
     \<Rightarrow> error + jv list \<times> jv list \<times> jv list" where
  "runClientSearch JSON_parse chats users queryLower loggedUserZuid =
     (case mapE (clientChat JSON_parse loggedUserZuid) (take MAX_CLIENT_CHATS chats) of
        Inl e \<Rightarrow> Inl e
      | Inr mapped \<Rightarrow>
          (let clientChats =
                 sort_key (\<lambda>c. - scoreNum c) (filter (chatMatches queryLower) mapped);
               clientChatZuids =
                 map (\<lambda>c. js_String (getProp c ''id''))
                   (filter (\<lambda>c. strictEq (getProp c ''_module'') (JStr ''users'')) clientChats)
           in case mapE clientUser (take MAX_CLIENT_USERS users) of
                Inl e \<Rightarrow> Inl e
              | Inr mappedUsers \<Rightarrow>
                  (case filterE (userMatches queryLower clientChatZuids) mappedUsers of
                     Inl e \<Rightarrow> Inl e
                   | Inr clientUsers \<Rightarrow>
                       Inr (clientChats, clientUsers, clientChats @ clientUsers))))"

section \<open>queryParser.js: the parsed query\<close>

text \<open>
  The fields \<open>raw\<close>, \<open>trimmed\<close>, \<open>phrase\<close>, \<open>keywords\<close>, \<open>isEmpty\<close>,
  \<open>isMultiWord\<close> and \<open>filters\<close> of a \<open>ParsedQuery\<close>; \<open>filters\<close> is an object
  with string values, kept as the list of its entries in insertion order.
\<close>

record parsedQuery =
  pq_raw :: string
  pq_trimmed :: string
  pq_phrase :: string
  pq_keywords :: "string list"
  pq_isEmpty :: bool
  pq_isMultiWord :: bool
  pq_filters :: "(string \<times> string) list"

section \<open>queryParser.js: parsing and serializing\<close>

definition FILTER_TOKENS :: "string list" where
  "FILTER_TOKENS =
     [''from'', ''to'', ''in'', ''after'', ''before'', ''on'',
      ''filenamehas'', ''linkhas'', ''filehas'', ''fileobject'']"

text \<open>
  \<open>TOKEN_RE = /(\w+):([^\s]+)/g\<close>. A match at the start of \<open>s\<close>: the greedy
  \<open>\w+\<close> takes the whole run of word characters, which must be non-empty and
  followed by a colon (giving characters back never helps: the character after a
  shorter run is a word character, not a colon); \<open>[^\s]+\<close> then takes the whole run
  of characters that are not white space, which must be non-empty. The result is the
  key, the value and the rest of the string after the match.
\<close>

definition notSpace :: "char \<Rightarrow> bool" where
  "notSpace c = (\<not> isSpace c)"

definition matchAt :: "string \<Rightarrow> (string \<times> string \<times> string) option" where
  "matchAt s =
     (case dropWhile isWordChar s of
        [] \<Rightarrow> None
      | c # r \<Rightarrow>
          if takeWhile isWordChar s \<noteq> [] \<and> c = CHR '':'' \<and> takeWhile notSpace r \<noteq> []
          then Some (takeWhile isWordChar s, takeWhile notSpace r, dropWhile notSpace r)
          else None)"

text \<open>
  The loop \<open>while ((m = TOKEN_RE.exec(raw)) !== null)\<close>: the matches from left to
  right, each search resuming after the previous match. A match is
  \<open>(m[0], m[1], m[2])\<close>.
\<close>

function execAll :: "string \<Rightarrow> (string \<times> string \<times> string) list" where
  "execAll [] = []"
| "execAll (c # s) =
     (case matchAt (c # s) of
        Some (key, val, rest) \<Rightarrow> (key @ '':'' @ val, key, val) # execAll rest
      | None \<Rightarrow> execAll s)"
  by pat_completeness auto
termination
proof (relation "measure length")
  show "wf (measure length)" by simp
next
  fix c s x2 key y val rest
  assume m: "matchAt (c # s) = Some x2" and x: "(key, y) = x2" and y: "(val, rest) = y"
  from m x y obtain d r where r: "dropWhile isWordChar (c # s) = d # r"
    and rest: "rest = dropWhile notSpace r"
    by (auto simp: matchAt_def split: list.splits if_splits)
  have "length rest \<le> length r"
    unfolding rest by (rule length_dropWhile_le)
  also have "length r < length (dropWhile isWordChar (c # s))"
    unfolding r by simp
  also have "\<dots> \<le> length (c # s)"
    by (rule length_dropWhile_le)
  finally show "(rest, c # s) \<in> measure length" by simp
next
  fix c s
  show "(s, c # s) \<in> measure (length :: string \<Rightarrow> nat)" by simp
qed

text \<open>\<open>remaining.replace(tok, '')\<close>: the first occurrence of \<open>tok\<close> is removed.\<close>

fun replaceFirst :: "string \<Rightarrow> string \<Rightarrow> string" where
  "replaceFirst tok [] = []"
| "replaceFirst tok (c # s) =
     (if startsWith (c # s) tok then drop (length tok) (c # s) else c # replaceFirst tok s)"

text \<open>\<open>.replace(/\s+/g, ' ')\<close>: each run of white space becomes one space.\<close>

fun collapseSpaces :: "string \<Rightarrow> string" where
  "collapseSpaces [] = []"
| "collapseSpaces [c] = (if isSpace c then '' '' else [c])"
| "collapseSpaces (c # d # s) =
     (if isSpace c
      then (if isSpace d then collapseSpaces (d # s) else CHR '' '' # collapseSpaces (d # s))
      else c # collapseSpaces (d # s))"

text \<open>
  \<open>trimmed.split(/\s+/)\<close>, on a string that is not empty and neither starts nor
  ends with white space: its maximal runs of characters that are not white space.
  \<open>cur\<close> is the word being read.
\<close>

fun splitWords :: "string \<Rightarrow> string \<Rightarrow> string list" where
  "splitWords cur [] = (if cur = [] then [] else [cur])"
| "splitWords cur (c # s) =
     (if isSpace c then (if cur = [] then splitWords [] s else cur # splitWords [] s)
      else splitWords (cur @ [c]) s)"

text \<open>
  The loop over the matches: a match whose lowercased key is a valid token sets the
  filter (the value without one leading \<open>@\<close> or \<open>#\<close>) and is pushed on
  \<open>removed\<close>.
\<close>

fun collectFilters ::
  "string list \<Rightarrow> (string \<times> string \<times> string) list \<Rightarrow> (string \<times> string) list \<times> string list
     \<Rightarrow> (string \<times> string) list \<times> string list" where
  "collectFilters validTokens [] acc = acc"
| "collectFilters validTokens ((m0, m1, m2) # ms) (filtersAcc, removed) =
     collectFilters validTokens ms
       (if toLowerCase m1 \<in> set validTokens
        then (mapSet filtersAcc (toLowerCase m1) (stripMarker m2), removed @ [m0])
        else (filtersAcc, removed))"

definition parseQuery :: "string \<Rightarrow> string list \<Rightarrow> parsedQuery" where
  "parseQuery rawText validTokens =
     (let found = collectFilters validTokens (execAll rawText) ([], []);
          remaining = foldl (\<lambda>r tok. replaceFirst tok r) rawText (snd found);
          trimmedText = trim (collapseSpaces remaining);
          kws = (if trimmedText = [] then [] else splitWords [] trimmedText)
      in \<lparr>pq_raw = rawText, pq_trimmed = trimmedText, pq_phrase = trimmedText,
          pq_keywords = kws,
          pq_isEmpty = (length kws = 0 \<and> length (fst found) = 0),
          pq_isMultiWord = (length kws > 1),
          pq_filters = fst found\<rparr>)"

text \<open>
  \<open>serializeQuery\<close>: the entries of \<open>filters\<close> sorted by key, each rendered
  \<open>key:value\<close>, joined by spaces, after the trimmed text. \<open>localeCompare\<close> is
  taken as the comparison of code units, which it is on the lowercase letters of the
  token vocabulary.
\<close>

definition serializeQuery :: "parsedQuery \<Rightarrow> string" where
  "serializeQuery pq =
     (let filterStr =
            joinWith '' '' (map (\<lambda>kv. fst kv @ '':'' @ snd kv) (sort_key fst (pq_filters pq)))
      in joinWith '' '' (filter (\<lambda>s. s \<noteq> []) [pq_trimmed pq, filterStr]))"

section \<open>searchSlice.js: the remote fetch\<close>

text \<open>
  A module function returns a promise: it resolves with a value or rejects with an
  error. The model is sequential, so each call is given by its settled outcome.
  \<open>globalsearch\<close> is defined by both API sets of the repository; every other
  module function may be absent. \<open>random n\<close> is the text of the number that
  \<open>Math.random()\<close> gives to call number \<open>n\<close> of the dedup-key function in an
  invocation.
\<close>

datatype apiOutcome = Resolved jv | Rejected error

record env =
  jsonParse :: "string \<Rightarrow> jv option"
  now_check :: int
  now_write :: int
  globalsearch :: "parsedQuery \<Rightarrow> apiOutcome"
  moduleApis :: "string \<Rightarrow> (parsedQuery \<Rightarrow> apiOutcome) option"
  random :: "nat \<Rightarrow> string"

text \<open>\<open>Array.isArray(raw) ? raw : []\<close>\<close>

definition rawList :: "jv \<Rightarrow> jv list" where
  "rawList rawv = (case rawv of JArr xs \<Rightarrow> xs | _ \<Rightarrow> [])"

text \<open>
  \<open>promise.then(f).catch(() => [])\<close>: a rejected call, and a callback that throws,
  both give the empty list.
\<close>

definition settle :: "apiOutcome \<Rightarrow> (jv list \<Rightarrow> error + jv list) \<Rightarrow> jv list" where
  "settle outc f =
     (case outc of
        Rejected e \<Rightarrow> []
      | Resolved rawv \<Rightarrow> (case f (rawList rawv) of Inl e \<Rightarrow> [] | Inr xs \<Rightarrow> xs))"

definition globalItem :: "(string \<Rightarrow> jv option) \<Rightarrow> jv \<Rightarrow> jv \<Rightarrow> error + jv" where
  "globalItem jparse loggedUserZuid it =
     (if nullish it then Inl TypeError
      else Inr (JObj
        (mapSet
          (mapSet
            (mapSet (spread it) ''_module'' (orElse (getProp it ''_module'') (JStr '''')))
            ''_source'' (orElse (getProp it ''_source'') (JStr ''server'')))
          ''id''
          (if js_String (getProp it ''chat_type'') = ''1''
           then orElse (getOtherUserId jparse (getProp it ''recipantssummary'')
                          loggedUserZuid (getProp it ''title''))
                       (getProp it ''chatid'')
           else getProp it ''chatid''))))"

definition moduleItem :: "string \<Rightarrow> string \<Rightarrow> jv \<Rightarrow> error + jv" where
  "moduleItem md idField it =
     (if nullish it then Inl TypeError
      else Inr (JObj
        (mapSet
          (mapSet
            (mapSet (spread it) ''_module'' (orElse (getProp it ''_module'') (JStr md)))
            ''_source'' (orElse (getProp it ''_source'') (JStr ''server'')))
          ''id'' (getProp it idField))))"

text \<open>
  \<open>.filter(item => !filterSet || !filterSet.has(String(item.id)))\<close>, with
  \<open>None\<close> for the null filter set.
\<close>

definition notExcluded :: "string list option \<Rightarrow> jv \<Rightarrow> bool" where
  "notExcluded filterSet it =
     (case filterSet of None \<Rightarrow> True | Some s \<Rightarrow> js_String (getProp it ''id'') \<notin> set s)"

definition moduleResponse :: "string \<Rightarrow> string \<Rightarrow> string list option \<Rightarrow> apiOutcome \<Rightarrow> jv list" where
  "moduleResponse md idField filterSet outc =
     settle outc (\<lambda>lst. case mapE (moduleItem md idField) lst of
                          Inl e \<Rightarrow> Inl e
                        | Inr xs \<Rightarrow> Inr (filter (notExcluded filterSet) xs))"

text \<open>
  The calls of \<open>addModule\<close>, in their order: the module, whether its results are
  filtered by the chat exclusion set, and the field that holds its identifier.
\<close>

definition moduleTable :: "(string \<times> bool \<times> string) list" where
  "moduleTable =
     [(''chats'', True, ''chatid''), (''channels'', True, ''chatid''),
      (''bots'', True, ''chatid''), (''threads'', True, ''chatid''),
      (''messages'', False, ''msguid''), (''files'', False, ''id''),
      (''department'', False, ''id''), (''widgets'', False, ''id''),
      (''apps'', False, ''id''), (''connections'', False, ''id''),
      (''settings'', False, ''id'')]"

text \<open>When a module is called: its function exists, it is enabled, and the category allows it.\<close>

definition moduleCalled :: "env \<Rightarrow> string list \<Rightarrow> string \<Rightarrow> string \<Rightarrow> bool" where
  "moduleCalled ev enabledModules activeCategory md =
     (moduleApis ev md \<noteq> None \<and> md \<in> set enabledModules
      \<and> (activeCategory = ''all'' \<or> activeCategory = md))"

definition addModule ::
  "env \<Rightarrow> parsedQuery \<Rightarrow> string list \<Rightarrow> string \<Rightarrow> string list
     \<Rightarrow> string \<times> bool \<times> string \<Rightarrow> (string \<times> jv list) list" where
  "addModule ev pq enabledModules activeCategory existingChatIds entry =
     (case entry of (md, useChatIds, idField) \<Rightarrow>
        (case moduleApis ev md of
           None \<Rightarrow> []
         | Some apiFn \<Rightarrow>
             if md \<notin> set enabledModules then []
             else if activeCategory \<noteq> ''all'' \<and> activeCategory \<noteq> md then []
             else [(md, moduleResponse md idField
                          (if useChatIds then Some existingChatIds else None) (apiFn pq))]))"

text \<open>
  \<open>buildServerPromises\<close> with the promises settled: the modules called, in order,
  each with its response, and the two captured lists.
\<close>

record serverFetch =
  responses :: "(string \<times> jv list) list"
  globalSearchResults :: "jv list"
  usersApiResults :: "jv list"

definition buildServerPromises ::
  "env \<Rightarrow> parsedQuery \<Rightarrow> jv \<Rightarrow> string list \<Rightarrow> string \<Rightarrow> string list \<Rightarrow> string list
     \<Rightarrow> serverFetch" where
  "buildServerPromises ev pq loggedUserZuid enabledModules activeCategory
       existingChatIds existingUserIds =
     (let glob = settle (globalsearch ev pq) (mapE (globalItem (jsonParse ev) loggedUserZuid));
          usersCalled = (moduleApis ev ''users'' \<noteq> None \<and> ''users'' \<in> set enabledModules
                         \<and> (activeCategory = ''all'' \<or> activeCategory = ''users''));
          usrs = (case moduleApis ev ''users'' of
                    None \<Rightarrow> []
                  | Some apiFn \<Rightarrow>
                      if usersCalled
                      then moduleResponse ''users'' ''zuid'' (Some existingUserIds) (apiFn pq)
                      else [])
      in \<lparr>responses =
            [(''globalsearch'', glob)] @ (if usersCalled then [(''users'', usrs)] else [])
            @ concat (map (addModule ev pq enabledModules activeCategory existingChatIds)
                        moduleTable),
          globalSearchResults = glob,
          usersApiResults = usrs\<rparr>)"

section \<open>searchSlice.js: enriching the client data\<close>

fun enrichChats :: "jv list \<Rightarrow> jv list \<times> string list \<Rightarrow> jv list \<times> string list" where
  "enrichChats [] acc = acc"
| "enrichChats (it # items) (chats, existingChatIds) =
     enrichChats items
       (if truthy (getProp it ''chatid'') \<and> js_String (getProp it ''chatid'') \<notin> set existingChatIds
        then (chats @ [it], existingChatIds @ [js_String (getProp it ''chatid'')])
        else (chats, existingChatIds))"

fun enrichUsers :: "jv list \<Rightarrow> jv list \<times> string list \<Rightarrow> jv list \<times> string list" where
  "enrichUsers [] acc = acc"
| "enrichUsers (it # items) (users, existingUserIds) =
     enrichUsers items
       (if truthy (getProp it ''zuid'') \<and> js_String (getProp it ''zuid'') \<notin> set existingUserIds
        then (users @ [it], existingUserIds @ [js_String (getProp it ''zuid'')])
        else (users, existingUserIds))"

section \<open>searchSlice.js: state, cache and reducers\<close>

record cacheEntry =
  ce_results :: "result list"
  ce_timestamp :: int
  ce_activeCategory :: string

text \<open>
  What \<open>state.error\<close> holds after a rejection: the message of the error handed to
  \<open>rejectWithValue\<close>, or the literal \<open>'Search error'\<close> when the thunk threw outside
  its \<open>try\<close>.
\<close>

datatype rejection = MessageOf error | SearchError

text \<open>
  The part of the slice state the pipeline touches. \<open>cache\<close> is a plain object
  keyed by query text, kept as the list of its entries.
\<close>

record searchState =
  cache :: "(string \<times> cacheEntry) list"
  s_results :: "result list"
  isLoading :: bool
  s_error :: "rejection option"

definition pending :: "searchState \<Rightarrow> searchState" where
  "pending st = st\<lparr>isLoading := True, s_error := None\<rparr>"

definition updateResults :: "searchState \<Rightarrow> result list \<Rightarrow> bool \<Rightarrow> searchState" where
  "updateResults st rs isPartial = st\<lparr>s_results := rs, isLoading := isPartial\<rparr>"

definition setCacheEntry :: "searchState \<Rightarrow> string \<Rightarrow> cacheEntry \<Rightarrow> searchState" where
  "setCacheEntry st key val = st\<lparr>cache := mapSet (cache st) key val\<rparr>"

definition clearExpiredCache :: "searchState \<Rightarrow> int \<Rightarrow> searchState" where
  "clearExpiredCache st nowv =
     st\<lparr>cache := filter (\<lambda>(key, entry). nowv - ce_timestamp entry < CACHE_TIMEOUT_MS) (cache st)\<rparr>"

definition clearAllCache :: "searchState \<Rightarrow> searchState" where
  "clearAllCache st = st\<lparr>cache := []\<rparr>"

definition fulfilled :: "searchState \<Rightarrow> result list \<Rightarrow> searchState" where
  "fulfilled st rs = st\<lparr>s_results := rs, isLoading := False\<rparr>"

definition rejected :: "searchState \<Rightarrow> rejection \<Rightarrow> searchState" where
  "rejected st r = st\<lparr>isLoading := False, s_error := Some r\<rparr>"

section \<open>searchSlice.js: executeSearch\<close>

text \<open>
  The payload of the thunk. \<open>maxResults\<close> is a number or undefined; the callbacks
  \<open>getFields\<close> and \<open>getDedupKey\<close> are optional and may throw. A dedup-key
  callback need not be a function of the item alone (the default one, and the default
  of the hook, draw a random number): \<open>f n r\<close> is what call number \<open>n\<close> of the
  callback in the invocation returns on the item \<open>r\<close>.
\<close>

record payload =
  p_parsedQuery :: parsedQuery
  p_activeCategory :: string
  p_chats :: "jv list"
  p_users :: "jv list"
  p_enabledModules :: "string list"
  p_moduleWeights :: "(string \<times> rat) list"
  p_scorerConfig :: "matchScores option"
  p_getFields :: "(jv \<Rightarrow> error + jv list) option"
  p_getDedupKey :: "(nat \<Rightarrow> result \<Rightarrow> error + string) option"
  p_maxResults :: "int option"
  p_loggedUser :: jv

text \<open>
  The steps an invocation performs, recorded in order: cancelling the previous
  search, building the exclusion sets, the local search, publishing the partial
  results, each call of a remote module, the enrichment, ranking, merging, and the
  write to the cache.
\<close>

datatype event =
    AbortPrevious | ExclusionSets | ClientSearch | PartialResults
  | ModuleCall string | Enrich | Rank | Merge | CacheWrite string

fun moduleCalls :: "event list \<Rightarrow> string list" where
  "moduleCalls [] = []"
| "moduleCalls (ModuleCall m # es) = m # moduleCalls es"
| "moduleCalls (e # es) = moduleCalls es"

text \<open>
  How an invocation ends: fulfilled with a result list (and whether it came from the
  cache), fulfilled as aborted, rejected through \<open>rejectWithValue\<close>, or rejected by
  an exception thrown outside the \<open>try\<close>.
\<close>

datatype outcome =
    Fulfilled "result list" bool | FulfilledAborted | RejectedWith error | RejectedUncaught error

record run =
  r_outcome :: outcome
  r_state :: searchState
  r_trace :: "event list"
  r_chatsAfter :: "jv list"
  r_usersAfter :: "jv list"

text \<open>\<open>maxResults ? merged.slice(0, maxResults) : merged\<close>\<close>

definition applyMax :: "int option \<Rightarrow> 'a list \<Rightarrow> 'a list" where
  "applyMax mx merged =
     (case mx of
        None \<Rightarrow> merged
      | Some n \<Rightarrow> if n = 0 then merged
                 else if n > 0 then take (nat n) merged
                 else take (nat (int (length merged) + n)) merged)"

text \<open>
  The key function is called once for each item of \<open>deduplicateBy\<close>, in the order
  of the list, and then twice for each comparison of the filter. \<open>tagCalls n\<close> pairs
  the items with the numbers of the calls that key them, starting at \<open>n\<close>;
  \<open>untag\<close> gives the item back, and \<open>keyAtCall\<close> is the key function on a tagged
  item.
\<close>

definition tagCalls :: "nat \<Rightarrow> 'a scored list \<Rightarrow> (nat \<times> 'a) scored list" where
  "tagCalls n xs =
     map (\<lambda>(i, s). \<lparr>item = (i, item s), u_score = u_score s, u_matchType = u_matchType s,
                     u_matchScore = u_matchScore s\<rparr>)
       (zip [n..<n + length xs] xs)"

definition untag :: "(nat \<times> 'a) scored \<Rightarrow> 'a scored" where
  "untag t = \<lparr>item = snd (item t), u_score = u_score t, u_matchType = u_matchType t,
              u_matchScore = u_matchScore t\<rparr>"

definition keyAtCall :: "(nat \<Rightarrow> result \<Rightarrow> error + string) \<Rightarrow> (nat \<times> jv) scored \<Rightarrow> error + string" where
  "keyAtCall resolveDedupKey t = resolveDedupKey (fst (item t)) (ServerItem (untag t))"

text \<open>\<open>deduplicateBy(serverResults, resolveDedupKey)\<close>, its calls numbered from \<open>n\<close>.\<close>

definition dedupServer ::
  "(nat \<Rightarrow> result \<Rightarrow> error + string) \<Rightarrow> nat \<Rightarrow> jv scored list \<Rightarrow> error + jv scored list" where
  "dedupServer resolveDedupKey n serverResults =
     (case deduplicateBy (tagCalls n serverResults) (keyAtCall resolveDedupKey) of
        Inl e \<Rightarrow> Inl e
      | Inr dd \<Rightarrow> Inr (map untag dd))"

text \<open>
  \<open>clientResults.some(cItem => resolveDedupKey(cItem) === resolveDedupKey(sItem))\<close>,
  its calls numbered from \<open>n\<close>: the result, and the number of the next call.
\<close>

fun clientHasKey ::
  "(nat \<Rightarrow> result \<Rightarrow> error + string) \<Rightarrow> jv scored \<Rightarrow> jv list \<Rightarrow> nat \<Rightarrow> (error + bool) \<times> nat" where
  "clientHasKey resolveDedupKey sItem [] n = (Inr False, n)"
| "clientHasKey resolveDedupKey sItem (cItem # cs) n =
     (case resolveDedupKey n (ClientItem cItem) of
        Inl e \<Rightarrow> (Inl e, n + 1)
      | Inr kc \<Rightarrow>
          (case resolveDedupKey (n + 1) (ServerItem sItem) of
             Inl e \<Rightarrow> (Inl e, n + 2)
           | Inr ks \<Rightarrow>
               if kc = ks then (Inr True, n + 2)
               else clientHasKey resolveDedupKey sItem cs (n + 2)))"

text \<open>\<open>.filter(sItem => !clientResults.some(...))\<close>, its calls numbered from \<open>n\<close>.\<close>

fun filterNotInClient ::
  "(nat \<Rightarrow> result \<Rightarrow> error + string) \<Rightarrow> jv list \<Rightarrow> jv scored list \<Rightarrow> nat
     \<Rightarrow> error + jv scored list" where
  "filterNotInClient resolveDedupKey clientResults [] n = Inr []"
| "filterNotInClient resolveDedupKey clientResults (sItem # ss) n =
     (case clientHasKey resolveDedupKey sItem clientResults n of
        (Inl e, n') \<Rightarrow> Inl e
      | (Inr b, n') \<Rightarrow>
          (case filterNotInClient resolveDedupKey clientResults ss n' of
             Inl e \<Rightarrow> Inl e
           | Inr kept \<Rightarrow> Inr (if b then kept else sItem # kept)))"

text \<open>
  \<open>[...clientResults, ...deduplicateBy(serverResults, key).filter(...)]\<close>: the
  remote part, and the merged list. The first call of the key function in an
  invocation is call 0; \<open>deduplicateBy\<close> makes one call for each server result.
\<close>

definition remotePart ::
  "(nat \<Rightarrow> result \<Rightarrow> error + string) \<Rightarrow> jv list \<Rightarrow> jv scored list \<Rightarrow> error + jv scored list" where
  "remotePart resolveDedupKey clientResults serverResults =
     (case dedupServer resolveDedupKey 0 serverResults of
        Inl e \<Rightarrow> Inl e
      | Inr dd \<Rightarrow> filterNotInClient resolveDedupKey clientResults dd (length serverResults))"

definition mergeResults ::
  "(nat \<Rightarrow> result \<Rightarrow> error + string) \<Rightarrow> jv list \<Rightarrow> jv scored list \<Rightarrow> error + result list" where
  "mergeResults resolveDedupKey clientResults serverResults =
     (case remotePart resolveDedupKey clientResults serverResults of
        Inl e \<Rightarrow> Inl e
      | Inr kept \<Rightarrow> Inr (map ClientItem clientResults @ map ServerItem kept))"

text \<open>The \<open>catch\<close> of the pipeline.\<close>

definition caught :: "error \<Rightarrow> searchState \<Rightarrow> event list \<Rightarrow> jv list \<Rightarrow> jv list \<Rightarrow> run" where
  "caught e st tr cs us =
     (if e = AbortError
      then \<lparr>r_outcome = FulfilledAborted, r_state = st, r_trace = tr, r_chatsAfter = cs, r_usersAfter = us\<rparr>
      else \<lparr>r_outcome = RejectedWith e, r_state = rejected st (MessageOf e), r_trace = tr,
            r_chatsAfter = cs, r_usersAfter = us\<rparr>)"

definition resolveDedupKeyOf :: "env \<Rightarrow> payload \<Rightarrow> nat \<Rightarrow> result \<Rightarrow> error + string" where
  "resolveDedupKeyOf ev p =
     (case p_getDedupKey p of
        Some f \<Rightarrow> f
      | None \<Rightarrow> (\<lambda>n. getDefaultDedupKey (random ev n)))"

definition resolveFieldsOf :: "payload \<Rightarrow> jv \<Rightarrow> error + jv list" where
  "resolveFieldsOf p =
     (case p_getFields p of Some f \<Rightarrow> f | None \<Rightarrow> getDefaultResolveFields)"

text \<open>
  \<open>moduleWeights[item._module] ?? DEFAULT_MODULE_WEIGHTS[item._module]\<close>. For a
  module tag that is in neither table and names a member of \<open>Object.prototype\<close>
  the weight is that member, the product with it is \<open>NaN\<close>, and the code goes on
  with the score \<open>NaN\<close>, under which the order of \<open>Array.prototype.sort\<close> is
  left to the engine. No score of the model is \<open>NaN\<close>: the model stops there.
\<close>

definition getWeightOf :: "payload \<Rightarrow> jv \<Rightarrow> error + rat option" where
  "getWeightOf p it =
     (let m = js_String (getProp it ''_module'') in
      case map_of (p_moduleWeights p) m of
        Some w \<Rightarrow> Inr (Some w)
      | None \<Rightarrow>
          (case map_of DEFAULT_MODULE_WEIGHTS m of
             Some w \<Rightarrow> Inr (Some w)
           | None \<Rightarrow> if m \<in> set objectPrototypeKeys then Inl NotModelled else Inr None))"

definition loggedUserZuidOf :: "payload \<Rightarrow> jv" where
  "loggedUserZuidOf p =
     (if nullish (p_loggedUser p) then JUndefined else getProp (p_loggedUser p) ''Zuid'')"

text \<open>
  Steps 3 and 4: the remote fetch, made only when the local results are sparse.
\<close>

definition serverStage ::
  "env \<Rightarrow> payload \<Rightarrow> string list \<Rightarrow> string list \<Rightarrow> jv list \<Rightarrow> jv list \<Rightarrow> serverFetch" where
  "serverStage ev p existingChatIds existingUserIds clientChats clientUsers =
     (let shouldFetchServer = (length clientChats < 15 \<or> length clientUsers < 15)
      in if shouldFetchServer
         then buildServerPromises ev (p_parsedQuery p) (loggedUserZuidOf p) (p_enabledModules p)
                (p_activeCategory p) existingChatIds existingUserIds
         else \<lparr>responses = [], globalSearchResults = [], usersApiResults = []\<rparr>)"

text \<open>
  Steps 6 and 7: rank, deduplicate, merge, cap, write the cache. \<open>st1\<close> is the
  state after the partial results, \<open>tr\<close> the steps performed so far.
\<close>

definition mergeStage ::
  "env \<Rightarrow> searchState \<Rightarrow> payload \<Rightarrow> jv list \<Rightarrow> jv list \<Rightarrow> event list \<Rightarrow> jv list \<Rightarrow> jv list
     \<Rightarrow> run" where
  "mergeStage ev st1 p clientResults rawServer tr chats' users' =
     (let pq = p_parsedQuery p in
      case rankResults rawServer (pq_keywords pq) (pq_phrase pq)
             (resolveFieldsOf p) (getWeightOf p)
             (case p_scorerConfig p of None \<Rightarrow> DEFAULT_matchScores | Some sc \<Rightarrow> sc) of
        Inl e \<Rightarrow> caught e st1 (tr @ [Rank]) chats' users'
      | Inr serverResults \<Rightarrow>
          (case mergeResults (resolveDedupKeyOf ev p) clientResults serverResults of
             Inl e \<Rightarrow> caught e st1 (tr @ [Rank, Merge]) chats' users'
           | Inr merged \<Rightarrow>
               (let final = applyMax (p_maxResults p) merged;
                    cacheKey = toLowerCase (pq_trimmed pq);
                    st2 = setCacheEntry st1 cacheKey
                            \<lparr>ce_results = final, ce_timestamp = now_write ev,
                             ce_activeCategory = p_activeCategory p\<rparr>
                in \<lparr>r_outcome = Fulfilled final False, r_state = fulfilled st2 final,
                    r_trace = tr @ [Rank, Merge, CacheWrite cacheKey],
                    r_chatsAfter = chats', r_usersAfter = users'\<rparr>)))"

text \<open>Everything after the cache check; \<open>st\<close> is the state after \<open>pending\<close>.\<close>

definition pipeline :: "env \<Rightarrow> searchState \<Rightarrow> payload \<Rightarrow> run" where
  "pipeline ev st p =
     (let loggedUserZuid = loggedUserZuidOf p;
          queryLower = toLowerCase (pq_trimmed (p_parsedQuery p))
      in case buildExclusionSets (jsonParse ev) (p_chats p) (p_users p) loggedUserZuid of
        Inl e \<Rightarrow>
          \<lparr>r_outcome = RejectedUncaught e, r_state = rejected st SearchError,
           r_trace = [AbortPrevious, ExclusionSets],
           r_chatsAfter = p_chats p, r_usersAfter = p_users p\<rparr>
      | Inr (existingChatIds, existingUserIds) \<Rightarrow>
          (case runClientSearch (jsonParse ev) (p_chats p) (p_users p) queryLower loggedUserZuid of
             Inl e \<Rightarrow>
               caught e st [AbortPrevious, ExclusionSets, ClientSearch] (p_chats p) (p_users p)
           | Inr (clientChats, clientUsers, clientResults) \<Rightarrow>
               (let st1 = updateResults st (map ClientItem clientResults) True;
                    fetch = serverStage ev p existingChatIds existingUserIds clientChats clientUsers;
                    rawServer = concat (map snd (responses fetch));
                    chats' = fst (enrichChats (globalSearchResults fetch)
                                    (p_chats p, existingChatIds));
                    users' = fst (enrichUsers (usersApiResults fetch)
                                    (p_users p, existingUserIds))
                in mergeStage ev st1 p clientResults rawServer
                     ([AbortPrevious, ExclusionSets, ClientSearch, PartialResults]
                      @ map ModuleCall (map fst (responses fetch)) @ [Enrich])
                     chats' users')))"

text \<open>The cache check: the entry under the key, of the same category, younger than the TTL.\<close>

definition cacheHit :: "env \<Rightarrow> searchState \<Rightarrow> payload \<Rightarrow> cacheEntry option" where
  "cacheHit ev st p =
     (case map_of (cache st) (toLowerCase (pq_trimmed (p_parsedQuery p))) of
        None \<Rightarrow> None
      | Some cached \<Rightarrow>
          if ce_activeCategory cached = p_activeCategory p
             \<and> now_check ev - ce_timestamp cached < CACHE_TIMEOUT_MS
          then Some cached else None)"

definition executeSearch :: "env \<Rightarrow> searchState \<Rightarrow> payload \<Rightarrow> run" where
  "executeSearch ev st0 p =
     (let st = pending st0 in
      case cacheHit ev st p of
        Some cached \<Rightarrow>
          \<lparr>r_outcome = Fulfilled (ce_results cached) True, r_state = fulfilled st (ce_results cached),
           r_trace = [], r_chatsAfter = p_chats p, r_usersAfter = p_users p\<rparr>
      | None \<Rightarrow> pipeline ev st p)"

section \<open>Specification-side notions\<close>

text \<open>
  The words of the specification: what a decoded participant summary is, the three
  resolver strategies in their order, and when a field is usable by the scorer.
\<close>

fun isObj :: "jv \<Rightarrow> bool" where
  "isObj (JObj kvs) = True"
| "isObj v = False"

fun isArr :: "jv \<Rightarrow> bool" where
  "isArr (JArr xs) = True"
| "isArr v = False"

fun isStr :: "jv \<Rightarrow> bool" where
  "isStr (JStr s) = True"
| "isStr v = False"

definition decodeSummary :: "(string \<Rightarrow> jv option) \<Rightarrow> jv \<Rightarrow> jv option" where
  "decodeSummary JSON_parse summary =
     (case summary of JStr s \<Rightarrow> JSON_parse s | _ \<Rightarrow> Some (orElse summary (JArr [])))"

definition strategyA :: "jv \<Rightarrow> jv list \<Rightarrow> jv option" where
  "strategyA loggedInZuid ps =
     (if truthy loggedInZuid
      then find (\<lambda>p. js_String (getProp p ''zuid'') \<noteq> js_String loggedInZuid) ps
      else None)"

definition strategyB :: "jv \<Rightarrow> jv list \<Rightarrow> jv option" where
  "strategyB chatTitle ps =
     (if truthy chatTitle then find (\<lambda>p. strictEq (getProp p ''dname'') chatTitle) ps else None)"

definition strategyC :: "jv list \<Rightarrow> jv option" where
  "strategyC ps = (case ps of [p] \<Rightarrow> Some p | _ \<Rightarrow> None)"

definition resolveOther :: "jv \<Rightarrow> jv \<Rightarrow> jv list \<Rightarrow> jv option" where
  "resolveOther loggedInZuid chatTitle ps =
     (case strategyA loggedInZuid ps of
        Some p \<Rightarrow> Some p
      | None \<Rightarrow> (case strategyB chatTitle ps of
                   Some p \<Rightarrow> Some p
                 | None \<Rightarrow> strategyC ps))"

definition stringField :: "jv \<Rightarrow> bool" where
  "stringField f = (isStr f \<or> \<not> truthy f)"

text \<open>
  The invariant of the loop of \<open>deduplicateBy\<close>, after the items \<open>S\<close>: the keys of
  \<open>seen\<close> are distinct, each stored item is a processed item filed under its own
  key, and each processed item has its key in \<open>seen\<close> with an item that scores at
  least as much.
\<close>

definition seenInv :: "('a scored \<Rightarrow> error + 'k) \<Rightarrow> ('k \<times> 'a scored) list \<Rightarrow> 'a scored set \<Rightarrow> bool" where
  "seenInv getKey seen S =
     (distinct (map fst seen)
      \<and> (\<forall>(k, v)\<in>set seen. getKey v = Inr k \<and> v \<in> S)
      \<and> (\<forall>y\<in>S. \<exists>k v. getKey y = Inr k \<and> map_of seen k = Some v \<and> u_score y \<le> u_score v))"

text \<open>
  A user record the local stage can filter: an object whose name and email fields
  are strings or falsy.
\<close>

definition wellFormedUser :: "jv \<Rightarrow> bool" where
  "wellFormedUser u =
     (isObj u \<and> stringField (getProp u ''full_name'') \<and> stringField (getProp u ''display_name'')
      \<and> stringField (getProp u ''email''))"

section \<open>Example data\<close>

text \<open>
  The conversation of the specification's examples (Alice and Bob), a decoder that
  knows two documents, and small inputs for the scorer.
\<close>

definition exAlice :: jv where
  "exAlice = JObj [(''zuid'', JStr ''1''), (''dname'', JStr ''Alice'')]"

definition exBob :: jv where
  "exBob = JObj [(''zuid'', JStr ''2''), (''dname'', JStr ''Bob'')]"

definition exJSON :: "string \<Rightarrow> jv option" where
  "exJSON s = (if s = ''[A,B]'' then Some (JArr [exAlice, exBob])
               else if s = ''{}'' then Some (JObj []) else None)"

definition exItems :: "string list" where
  "exItems = [''bob'', ''alice martin'', ''Alice'', ''malice'']"

definition exRanked :: "string scored list" where
  "exRanked =
     [\<lparr>item = ''Alice'', u_score = 3/2, u_matchType = exact, u_matchScore = 3/2\<rparr>,
      \<lparr>item = ''alice martin'', u_score = 1, u_matchType = startsWithT, u_matchScore = 1\<rparr>,
      \<lparr>item = ''malice'', u_score = 3/10, u_matchType = middle, u_matchScore = 3/10\<rparr>]"

definition exDup :: "string scored list" where
  "exDup =
     [\<lparr>item = ''a'', u_score = 1, u_matchType = startsWithT, u_matchScore = 1\<rparr>,
      \<lparr>item = ''b'', u_score = 3/10, u_matchType = middle, u_matchScore = 3/10\<rparr>,
      \<lparr>item = ''a'', u_score = 3/2, u_matchType = exact, u_matchScore = 3/2\<rparr>]"

definition exChat1 :: jv where
  "exChat1 = JObj [(''chatid'', JStr ''c1''), (''chat_type'', JNum 8), (''title'', JStr ''#alpha'')]"

definition exChat2 :: jv where
  "exChat2 = JObj [(''chatid'', JStr ''c2''), (''chat_type'', JNum 8), (''title'', JStr ''Alps'')]"

definition exServerChat :: jv where
  "exServerChat =
     JObj [(''chatid'', JStr ''c9''), (''chat_type'', JNum 8), (''title'', JStr ''alumni''),
           (''_module'', JStr ''channels'')]"

definition exServerUser :: jv where
  "exServerUser = JObj [(''zuid'', JStr ''7''), (''full_name'', JStr ''Alan Kay'')]"

definition exPQ :: parsedQuery where
  "exPQ = \<lparr>pq_raw = ''al'', pq_trimmed = ''al'', pq_phrase = ''al'', pq_keywords = [''al''],
           pq_isEmpty = False, pq_isMultiWord = False, pq_filters = []\<rparr>"

definition exEnv :: env where
  "exEnv =
     \<lparr>jsonParse = exJSON, now_check = 1000, now_write = 2000,
      globalsearch = (\<lambda>pq. Resolved (JArr [exServerChat])),
      moduleApis = (\<lambda>m. if m = ''users'' then Some (\<lambda>pq. Resolved (JArr [exServerUser]))
                         else None),
      random = (\<lambda>n. ''0.'' @ showInt (int n + 1) @ ''5'')\<rparr>"

definition exPayload :: payload where
  "exPayload =
     \<lparr>p_parsedQuery = exPQ, p_activeCategory = ''all'', p_chats = [exChat1, exChat2],
      p_users = [], p_enabledModules = [''users''], p_moduleWeights = [],
      p_scorerConfig = None, p_getFields = None, p_getDedupKey = None,
      p_maxResults = None, p_loggedUser = JNull\<rparr>"

definition exState :: searchState where
  "exState = \<lparr>cache = [], s_results = [], isLoading = False, s_error = None\<rparr>"

definition exEntry :: cacheEntry where
  "exEntry = \<lparr>ce_results = [ClientItem exChat1], ce_timestamp = 500, ce_activeCategory = ''all''\<rparr>"

definition exCached :: searchState where
  "exCached = exState\<lparr>cache := [(''al'', exEntry)]\<rparr>"

definition exLocal1 :: jv where
  "exLocal1 =
     JObj [(''chatid'', JStr ''c1''), (''chat_type'', JNum 8), (''title'', JStr ''alpha''),
           (''_module'', JStr ''channels''), (''_source'', JStr ''client''), (''id'', JStr ''c1'')]"

definition exLocal2 :: jv where
  "exLocal2 =
     JObj [(''chatid'', JStr ''c2''), (''chat_type'', JNum 8), (''title'', JStr ''Alps''),
           (''_module'', JStr ''channels''), (''_source'', JStr ''client''), (''id'', JStr ''c2'')]"

definition exRemote1 :: "jv scored" where
  "exRemote1 =
     \<lparr>item = JObj [(''zuid'', JStr ''7''), (''full_name'', JStr ''Alan Kay''),
                   (''_module'', JStr ''users''), (''_source'', JStr ''server''),
                   (''id'', JStr ''7'')],
      u_score = 3/2, u_matchType = startsWithT, u_matchScore = 1\<rparr>"

definition exRemote2 :: "jv scored" where
  "exRemote2 =
     \<lparr>item = JObj [(''chatid'', JStr ''c9''), (''chat_type'', JNum 8), (''title'', JStr ''alumni''),
                   (''_module'', JStr ''channels''), (''_source'', JStr ''server''),
                   (''id'', JStr ''c9'')],
      u_score = 6/5, u_matchType = startsWithT, u_matchScore = 1\<rparr>"

definition exFinal :: "result list" where
  "exFinal = [ClientItem exLocal1, ClientItem exLocal2, ServerItem exRemote1, ServerItem exRemote2]"

definition exUser :: jv where
  "exUser = JObj [(''zuid'', JStr ''u1''), (''full_name'', JStr ''Alan Turing'')]"

definition exDense :: payload where
  "exDense = exPayload\<lparr>p_chats := replicate 15 exChat2, p_users := replicate 15 exUser\<rparr>"


definition exOtherCategory :: payload where
  "exOtherCategory = exPayload\<lparr>p_activeCategory := ''users''\<rparr>"

definition exBadUser :: jv where
  "exBadUser = JObj [(''zuid'', JStr ''u2''), (''full_name'', JNum 42)]"

definition exNoTitle :: jv where
  "exNoTitle = JObj [(''chatid'', JStr ''c3''), (''chat_type'', JNum 8)]"

definition exLocalUser :: jv where
  "exLocalUser =
     JObj [(''zuid'', JStr ''u1''), (''full_name'', JStr ''Alan Turing''),
           (''_module'', JStr ''users''), (''_source'', JStr ''client''), (''id'', JStr ''u1'')]"

definition exEntry2 :: cacheEntry where
  "exEntry2 = \<lparr>ce_results = [], ce_timestamp = 700, ce_activeCategory = ''users''\<rparr>"

text \<open>
  A participant whose \<open>zuid\<close> is the number 0; a later invocation on client data
  that has grown by a chat; and a module that answers with the same record twice, a
  record with neither \<open>id\<close> nor \<open>name\<close>.
\<close>

definition exZero :: jv where
  "exZero = JObj [(''zuid'', JNum 0), (''dname'', JStr ''Alice'')]"









section \<open>Properties of the string primitives\<close>

lemma startsWith_prefix: "startsWith f k = prefix k f"
  by (auto simp: startsWith_def prefix_def) (metis append_take_drop_id)

lemma includes_sublist: "str_includes f k = sublist k f"
proof (induction f)
  case Nil
  show ?case by auto
next
  case (Cons c cs)
  show ?case
    by (simp add: Cons.IH startsWith_prefix sublist_Cons_right)
qed

section \<open>Match detection\<close>

text \<open>
  C6. \<open>detectMatch\<close> lowercases and trims both operands and answers null when
  either is empty before or after trimming. Otherwise, with the default scores, it
  classifies in this order: field equal to keyword is \<open>exact\<close> with 1.5, field
  starting with the keyword is \<open>startsWith\<close> with 1.0, field containing a space
  followed by the keyword is \<open>afterSpace\<close> with 0.6, field containing the keyword
  anywhere is \<open>middle\<close> with 0.3, and anything else is null.
\<close>

theorem detectMatch_classification:
  "detectMatch kw field DEFAULT_matchScores =
     (let k = trim (toLowerCase kw); f = trim (toLowerCase field) in
      if kw = [] \<or> field = [] \<or> k = [] \<or> f = [] then None
      else if f = k then Some \<lparr>mtype = exact, score = 3/2\<rparr>
      else if prefix k f then Some \<lparr>mtype = startsWithT, score = 1\<rparr>
      else if sublist (CHR '' '' # k) f then Some \<lparr>mtype = afterSpace, score = 3/5\<rparr>
      else if sublist k f then Some \<lparr>mtype = middle, score = 3/10\<rparr>
      else None)"
  by (simp add: detectMatch_def DEFAULT_matchScores_def Let_def
      startsWith_prefix includes_sublist)

lemmas str_eval = trim_def toLowerCase_def lowerChar_def isSpace_def isWordChar_def Let_def

theorem detectMatch_classification_witness:
  "detectMatch ''Ali'' '' Alice Martin '' DEFAULT_matchScores = Some \<lparr>mtype = startsWithT, score = 1\<rparr>
   \<and> detectMatch ''MAR'' ''Alice Martin'' DEFAULT_matchScores = Some \<lparr>mtype = afterSpace, score = 3/5\<rparr>
   \<and> detectMatch ''  '' ''Alice'' DEFAULT_matchScores = None"
  using detectMatch_classification [of "''Ali''" "'' Alice Martin ''"]
    detectMatch_classification [of "''MAR''" "''Alice Martin''"]
    detectMatch_classification [of "''  ''" "''Alice''"]
  by (simp add: str_eval sublist_code)

section \<open>Module tag of a chat type\<close>

text \<open>
  C8. The module tag derived from a conversation type code: 8 gives \<open>channels\<close>,
  1 gives \<open>users\<close>, 11 gives \<open>threads\<close>. The code 9 gives the tag \<open>bot\<close>, not
  the \<open>bots\<close> of the claim and of the module tables.
\<close>

theorem chatTypeToModule_type9:
  "chatTypeToModule (JNum 9) = ''bot'' \<and> chatTypeToModule (JStr ''9'') = ''bot''
   \<and> chatTypeToModule (JNum 9) \<noteq> ''bots''
   \<and> chatTypeToModule (JNum 8) = ''channels'' \<and> chatTypeToModule (JNum 1) = ''users''
   \<and> chatTypeToModule (JNum 11) = ''threads'' \<and> chatTypeToModule (JNum 2) = ''''"
  by (simp add: chatTypeToModule_def showInt_def digitChar_def)

section \<open>Ranking and deduplication\<close>

lemma sortByScoreDesc_sorted:
  "sorted_wrt (\<lambda>a b. u_score a \<ge> u_score b) (sortByScoreDesc xs)"
proof -
  have "sorted (map (\<lambda>x. - u_score x) (sortByScoreDesc xs))"
    unfolding sortByScoreDesc_def by (rule sorted_sort_key)
  then show ?thesis
    by (simp add: sorted_map)
qed

lemma set_sortByScoreDesc: "set (sortByScoreDesc xs) = set xs"
  by (simp add: sortByScoreDesc_def)

lemma mset_sortByScoreDesc: "mset (sortByScoreDesc xs) = mset xs"
  by (simp add: sortByScoreDesc_def)

lemma distinct_map_sortByScoreDesc:
  "distinct (map f (sortByScoreDesc xs)) = distinct (map f xs)"
proof -
  have "mset (map f (sortByScoreDesc xs)) = mset (map f xs)"
    by (simp add: mset_sortByScoreDesc)
  then show ?thesis
    by (rule mset_eq_imp_distinct_iff)
qed

lemma detectMatchV_total: "stringField f \<Longrightarrow> \<exists>m. detectMatchV kw f sc = Inr m"
  by (cases f) (auto simp: detectMatchV_def stringField_def)

lemma bestFieldMatch_loop_total:
  "list_all stringField fs \<Longrightarrow> \<exists>m. bestFieldMatch_loop kw fs sc best = Inr m"
proof (induction fs arbitrary: best)
  case Nil
  show ?case by simp
next
  case (Cons f fs)
  then obtain m where "detectMatchV kw f sc = Inr m"
    using detectMatchV_total by fastforce
  with Cons show ?case by simp
qed

lemma scoreQuery_loop_total:
  "list_all stringField fs \<Longrightarrow> \<exists>m. scoreQuery_loop kws fs sc best = Inr m"
proof (induction kws arbitrary: best)
  case Nil
  show ?case by simp
next
  case (Cons kw kws)
  obtain m where "bestFieldMatch kw fs sc = Inr m"
    using bestFieldMatch_loop_total [OF Cons.prems] unfolding bestFieldMatch_def by blast
  with Cons show ?case by simp
qed

lemma scoreQuery_total:
  assumes "list_all stringField fs"
  shows "\<exists>m. scoreQuery kws phrase fs sc = Inr m"
proof -
  obtain pm where pm: "(if length kws > 1 then bestFieldMatch phrase fs sc else Inr None) = Inr pm"
    using bestFieldMatch_loop_total [OF assms, of phrase sc None]
    unfolding bestFieldMatch_def by (cases "length kws > 1") auto
  obtain bm where bm: "scoreQuery_loop kws fs sc None = Inr bm"
    using scoreQuery_loop_total [OF assms] by blast
  show ?thesis
    unfolding scoreQuery_def pm bm by simp
qed

lemma computeScore_total:
  assumes "list_all stringField fs"
  shows "\<exists>r. computeScore it kws phrase fs w sc = Inr r"
proof -
  obtain m where "scoreQuery kws phrase fs sc = Inr m"
    using scoreQuery_total [OF assms] by blast
  then show ?thesis
    by (cases m) (simp_all add: computeScore_def Let_def)
qed

lemma rankResults_loop_total:
  assumes "\<forall>it\<in>set items. (\<exists>fs. getFields it = Inr fs \<and> list_all stringField fs)
                            \<and> (\<exists>w. getWeight it = Inr w)"
  shows "\<exists>out. rankResults_loop items kws phrase getFields getWeight sc acc = Inr out"
  using assms
proof (induction items arbitrary: acc)
  case Nil
  show ?case by simp
next
  case (Cons it items)
  from Cons.prems obtain fs w where fs: "getFields it = Inr fs" "list_all stringField fs"
    and w: "getWeight it = Inr w"
    by auto
  obtain r where r: "computeScore it kws phrase fs w sc = Inr r"
    using computeScore_total [OF fs(2), of it kws phrase w sc] by blast
  have rest: "\<And>acc'. \<exists>out. rankResults_loop items kws phrase getFields getWeight sc acc' = Inr out"
    using Cons.IH Cons.prems by simp
  show ?case
    using rest by (cases r) (simp_all add: fs w r)
qed

lemma rankResults_total:
  assumes "\<forall>it\<in>set items. (\<exists>fs. getFields it = Inr fs \<and> list_all stringField fs)
                            \<and> (\<exists>w. getWeight it = Inr w)"
  shows "\<exists>out. rankResults items kws phrase getFields getWeight sc = Inr out"
proof -
  obtain acc where "rankResults_loop items kws phrase getFields getWeight sc [] = Inr acc"
    using rankResults_loop_total [OF assms] by blast
  then show ?thesis by (simp add: rankResults_def)
qed

lemma rankResults_sorted:
  "rankResults items kws phrase getFields getWeight sc = Inr out
     \<Longrightarrow> sorted_wrt (\<lambda>a b. u_score a \<ge> u_score b) out"
  by (auto simp: rankResults_def sortByScoreDesc_sorted split: sum.splits)



lemma map_of_mapSet: "map_of (mapSet kvs k v) = (map_of kvs)(k \<mapsto> v)"
  by (induction kvs) (auto simp: fun_eq_iff)

lemma fst_set_mapSet: "fst ` set (mapSet kvs k v) = insert k (fst ` set kvs)"
  by (induction kvs) (force split: if_splits)+

lemma distinct_mapSet: "distinct (map fst kvs) \<Longrightarrow> distinct (map fst (mapSet kvs k v))"
  by (induction kvs) (auto simp: fst_set_mapSet)

lemma set_mapSet_subset: "set (mapSet kvs k v) \<subseteq> insert (k, v) (set kvs)"
  by (induction kvs) (auto split: if_splits)

lemma seenInv_step:
  assumes inv: "seenInv getKey seen S" and k: "getKey it = Inr k"
  shows "seenInv getKey
           (case map_of seen k of
              None \<Rightarrow> mapSet seen k it
            | Some old \<Rightarrow> if u_score it > u_score old then mapSet seen k it else seen)
           (insert it S)"
proof (cases "map_of seen k")
  case None
  have d: "distinct (map fst (mapSet seen k it))"
    using inv by (simp add: seenInv_def distinct_mapSet)
  have m: "\<forall>(k', v)\<in>set (mapSet seen k it). getKey v = Inr k' \<and> v \<in> insert it S"
    using inv k set_mapSet_subset [of seen k it] by (fastforce simp: seenInv_def)
  have c: "\<forall>y\<in>insert it S. \<exists>k' v. getKey y = Inr k' \<and> map_of (mapSet seen k it) k' = Some v
             \<and> u_score y \<le> u_score v"
  proof
    fix y assume "y \<in> insert it S"
    then consider "y = it" | "y \<in> S" by blast
    then show "\<exists>k' v. getKey y = Inr k' \<and> map_of (mapSet seen k it) k' = Some v
             \<and> u_score y \<le> u_score v"
    proof cases
      case 1
      then show ?thesis using k by (auto simp: map_of_mapSet)
    next
      case 2
      then obtain k' v where "getKey y = Inr k'" "map_of seen k' = Some v" "u_score y \<le> u_score v"
        using inv unfolding seenInv_def by blast
      moreover from this None have "k' \<noteq> k" by auto
      ultimately show ?thesis by (auto simp: map_of_mapSet)
    qed
  qed
  show ?thesis
    unfolding None using d m c by (simp add: seenInv_def)
next
  case (Some old)
  show ?thesis
  proof (cases "u_score it > u_score old")
    case True
    have d: "distinct (map fst (mapSet seen k it))"
      using inv by (simp add: seenInv_def distinct_mapSet)
    have m: "\<forall>(k', v)\<in>set (mapSet seen k it). getKey v = Inr k' \<and> v \<in> insert it S"
      using inv k set_mapSet_subset [of seen k it] by (fastforce simp: seenInv_def)
    have c: "\<forall>y\<in>insert it S. \<exists>k' v. getKey y = Inr k' \<and> map_of (mapSet seen k it) k' = Some v
               \<and> u_score y \<le> u_score v"
    proof
      fix y assume "y \<in> insert it S"
      then consider "y = it" | "y \<in> S" by blast
      then show "\<exists>k' v. getKey y = Inr k' \<and> map_of (mapSet seen k it) k' = Some v
               \<and> u_score y \<le> u_score v"
      proof cases
        case 1
        then show ?thesis using k by (auto simp: map_of_mapSet)
      next
        case 2
        then obtain k' v where kv: "getKey y = Inr k'" "map_of seen k' = Some v"
            "u_score y \<le> u_score v"
          using inv unfolding seenInv_def by blast
        show ?thesis
        proof (cases "k' = k")
          case True
          with kv Some have "v = old" by simp
          with kv True \<open>u_score it > u_score old\<close> show ?thesis
            by (auto simp: map_of_mapSet)
        next
          case False
          with kv show ?thesis by (auto simp: map_of_mapSet)
        qed
      qed
    qed
    show ?thesis
      unfolding Some using True d m c by (simp add: seenInv_def)
  next
    case False
    have c: "\<exists>k' v. getKey it = Inr k' \<and> map_of seen k' = Some v \<and> u_score it \<le> u_score v"
      using k Some False by auto
    show ?thesis
      unfolding Some using False inv c by (auto simp: seenInv_def)
  qed
qed

lemma deduplicateBy_loop_inv:
  "deduplicateBy_loop items getKey seen = Inr seen' \<Longrightarrow> seenInv getKey seen S
     \<Longrightarrow> seenInv getKey seen' (S \<union> set items)"
proof (induction items arbitrary: seen S)
  case Nil
  then show ?case by simp
next
  case (Cons it items)
  from Cons.prems(1) obtain k where k: "getKey it = Inr k"
    by (auto split: sum.splits)
  let ?seen1 = "case map_of seen k of
              None \<Rightarrow> mapSet seen k it
            | Some old \<Rightarrow> if u_score it > u_score old then mapSet seen k it else seen"
  have "deduplicateBy_loop items getKey ?seen1 = Inr seen'"
    using Cons.prems(1) k by simp
  moreover have "seenInv getKey ?seen1 (insert it S)"
    by (rule seenInv_step [OF Cons.prems(2) k])
  ultimately have "seenInv getKey seen' (insert it S \<union> set items)"
    by (rule Cons.IH)
  then show ?case by simp
qed

lemma deduplicateBy_loop_total:
  "\<forall>it\<in>set items. \<exists>k. getKey it = Inr k \<Longrightarrow> \<exists>seen'. deduplicateBy_loop items getKey seen = Inr seen'"
proof (induction items arbitrary: seen)
  case Nil
  show ?case by simp
next
  case (Cons it items)
  then obtain k where "getKey it = Inr k" by auto
  with Cons show ?case by simp
qed

lemma deduplicateBy_props:
  assumes "deduplicateBy items getKey = Inr out"
  shows "distinct (map getKey out)"
    and "\<forall>x\<in>set out. \<forall>y\<in>set items. getKey y = getKey x \<longrightarrow> u_score y \<le> u_score x"
    and "set out \<subseteq> set items"
    and "\<forall>y\<in>set items. \<exists>x\<in>set out. getKey x = getKey y"
    and "sorted_wrt (\<lambda>a b. u_score a \<ge> u_score b) out"
proof -
  from assms obtain seen where loop: "deduplicateBy_loop items getKey [] = Inr seen"
    and out: "out = sortByScoreDesc (map snd seen)"
    by (auto simp: deduplicateBy_def split: sum.splits)
  have "seenInv getKey [] {}"
    by (simp add: seenInv_def)
  from deduplicateBy_loop_inv [OF loop this]
  have inv: "seenInv getKey seen (set items)" by simp
  then have d: "distinct (map fst seen)"
    and m: "\<And>k v. (k, v) \<in> set seen \<Longrightarrow> getKey v = Inr k \<and> v \<in> set items"
    and c: "\<And>y. y \<in> set items \<Longrightarrow>
              \<exists>k v. getKey y = Inr k \<and> map_of seen k = Some v \<and> u_score y \<le> u_score v"
    unfolding seenInv_def by blast+
  have keys: "map getKey (map snd seen) = map (\<lambda>kv. Inr (fst kv)) seen"
    using m by (auto simp: map_eq_conv)
  have "distinct (map (\<lambda>kv. Inr (fst kv) :: error + 'b) seen)"
    using d by (simp add: distinct_map inj_on_def)
  then show "distinct (map getKey out)"
    by (simp add: out distinct_map_sortByScoreDesc keys del: map_map)
  show "\<forall>x\<in>set out. \<forall>y\<in>set items. getKey y = getKey x \<longrightarrow> u_score y \<le> u_score x"
  proof (intro ballI impI)
    fix x y assume x: "x \<in> set out" and y: "y \<in> set items" and e: "getKey y = getKey x"
    from x obtain k where kx: "(k, x) \<in> set seen"
      by (auto simp: out set_sortByScoreDesc)
    then have gx: "getKey x = Inr k" using m by blast
    from c [OF y] obtain k' v where kv: "getKey y = Inr k'" "map_of seen k' = Some v"
        "u_score y \<le> u_score v"
      by blast
    from kv(1) gx e have "k' = k" by simp
    moreover have "map_of seen k = Some x"
      using d kx by simp
    ultimately show "u_score y \<le> u_score x"
      using kv by simp
  qed
  show "set out \<subseteq> set items"
    using m by (auto simp: out set_sortByScoreDesc)
  show "\<forall>y\<in>set items. \<exists>x\<in>set out. getKey x = getKey y"
  proof
    fix y assume "y \<in> set items"
    from c [OF this] obtain k v where kv: "getKey y = Inr k" "map_of seen k = Some v" by blast
    then have "(k, v) \<in> set seen" by (simp add: map_of_SomeD)
    then show "\<exists>x\<in>set out. getKey x = getKey y"
      using m kv(1) by (force simp: out set_sortByScoreDesc)
  qed
  show "sorted_wrt (\<lambda>a b. u_score a \<ge> u_score b) out"
    by (simp add: out sortByScoreDesc_sorted)
qed

text \<open>
  C7. The output of \<open>rankResults\<close> is sorted by non-increasing \<open>_score\<close>. The
  output of \<open>deduplicateBy\<close> has no two items with the same key, consists of input
  items, holds a survivor for the key of every input item, and each survivor scores
  at least as much as every input item with its key.
  Both return a list whenever their callbacks return: \<open>rankResults\<close> when the fields
  are strings (or falsy), \<open>deduplicateBy\<close> when the key function does not throw.
\<close>

theorem rankResults_sorted_deduplicateBy_unique:
  "(rankResults items kws phrase getFields getWeight sc = Inr ranked
      \<longrightarrow> sorted_wrt (\<lambda>a b. u_score a \<ge> u_score b) ranked)
   \<and> (deduplicateBy ditems getKey = Inr out
      \<longrightarrow> distinct (map getKey out) \<and> set out \<subseteq> set ditems
          \<and> (\<forall>y\<in>set ditems. \<exists>x\<in>set out. getKey x = getKey y)
          \<and> (\<forall>x\<in>set out. \<forall>y\<in>set ditems. getKey y = getKey x \<longrightarrow> u_score y \<le> u_score x))
   \<and> ((\<forall>it\<in>set items. (\<exists>fs. getFields it = Inr fs \<and> list_all stringField fs)
                         \<and> (\<exists>w. getWeight it = Inr w))
      \<longrightarrow> (\<exists>r. rankResults items kws phrase getFields getWeight sc = Inr r))
   \<and> ((\<forall>it\<in>set ditems. \<exists>k. getKey it = Inr k)
      \<longrightarrow> (\<exists>d. deduplicateBy ditems getKey = Inr d))"
proof (intro conjI impI)
  assume "rankResults items kws phrase getFields getWeight sc = Inr ranked"
  then show "sorted_wrt (\<lambda>a b. u_score a \<ge> u_score b) ranked"
    by (rule rankResults_sorted)
next
  assume d: "deduplicateBy ditems getKey = Inr out"
  show "distinct (map getKey out)" by (rule deduplicateBy_props(1) [OF d])
  show "set out \<subseteq> set ditems" by (rule deduplicateBy_props(3) [OF d])
  show "\<forall>y\<in>set ditems. \<exists>x\<in>set out. getKey x = getKey y"
    by (rule deduplicateBy_props(4) [OF d])
  show "\<forall>x\<in>set out. \<forall>y\<in>set ditems. getKey y = getKey x \<longrightarrow> u_score y \<le> u_score x"
    by (rule deduplicateBy_props(2) [OF d])
next
  assume "\<forall>it\<in>set items. (\<exists>fs. getFields it = Inr fs \<and> list_all stringField fs)
                         \<and> (\<exists>w. getWeight it = Inr w)"
  then show "\<exists>r. rankResults items kws phrase getFields getWeight sc = Inr r"
    by (rule rankResults_total)
next
  assume "\<forall>it\<in>set ditems. \<exists>k. getKey it = Inr k"
  then obtain seen where "deduplicateBy_loop ditems getKey [] = Inr seen"
    using deduplicateBy_loop_total by blast
  then show "\<exists>d. deduplicateBy ditems getKey = Inr d"
    by (simp add: deduplicateBy_def)
qed

lemma exRank_eval:
  "rankResults exItems [''alice''] ''alice'' (\<lambda>s. Inr [JStr s]) (\<lambda>s. Inr None) DEFAULT_matchScores
     = Inr exRanked"
  by code_simp

lemma exDup_eval:
  "deduplicateBy exDup (\<lambda>x. Inr (item x)) = Inr [exDup ! 2, exDup ! 1]"
  by code_simp

theorem rankResults_sorted_deduplicateBy_unique_witness:
  "rankResults exItems [''alice''] ''alice'' (\<lambda>s. Inr [JStr s]) (\<lambda>s. Inr None) DEFAULT_matchScores
     = Inr exRanked
   \<and> sorted_wrt (\<lambda>a b. u_score a \<ge> u_score b) exRanked
   \<and> deduplicateBy exDup (\<lambda>x. Inr (item x)) = Inr [exDup ! 2, exDup ! 1]
   \<and> distinct (map (\<lambda>x. Inr (item x) :: error + string) [exDup ! 2, exDup ! 1])
   \<and> u_score (exDup ! 0) \<le> u_score (exDup ! 2)"
  using rankResults_sorted_deduplicateBy_unique
    [of exItems "[''alice'']" "''alice''" "\<lambda>s. Inr [JStr s]" "\<lambda>s. Inr None" DEFAULT_matchScores
       exRanked exDup "\<lambda>x. Inr (item x)" "[exDup ! 2, exDup ! 1]"]
    exRank_eval exDup_eval
  by (simp add: exDup_def)

section \<open>The round trip of a query\<close>

text \<open>
  C2. The round trip fails on the code. In \<open>xfrom:a from:a\<close> the filter
  \<open>from:a\<close> is recognised, but \<open>remaining.replace(tok, '')\<close> removes the first
  occurrence of its text, which lies inside the word \<open>xfrom:a\<close>: the filter token
  stays in the trimmed text and in the keywords, and when the serialized query is
  parsed it is read as a filter again and removed, so the keywords differ. And in
  \<open>from:@\<close> the filter value is empty once the marker is stripped: the serialized
  query is \<open>from:\<close>, which the token expression does not match, so the second
  parse has a keyword and no filter.
\<close>

theorem parseQuery_roundtrip_divergence:
  "pq_filters (parseQuery ''xfrom:a from:a'' FILTER_TOKENS) = [(''from'', ''a'')]
   \<and> pq_trimmed (parseQuery ''xfrom:a from:a'' FILTER_TOKENS) = ''x from:a''
   \<and> pq_keywords (parseQuery ''xfrom:a from:a'' FILTER_TOKENS) = [''x'', ''from:a'']
   \<and> serializeQuery (parseQuery ''xfrom:a from:a'' FILTER_TOKENS) = ''x from:a from:a''
   \<and> pq_filters (parseQuery ''x from:a from:a'' FILTER_TOKENS) = [(''from'', ''a'')]
   \<and> pq_keywords (parseQuery ''x from:a from:a'' FILTER_TOKENS) = [''x'']
   \<and> pq_filters (parseQuery ''from:@'' FILTER_TOKENS) = [(''from'', [])]
   \<and> pq_keywords (parseQuery ''from:@'' FILTER_TOKENS) = []
   \<and> serializeQuery (parseQuery ''from:@'' FILTER_TOKENS) = ''from:''
   \<and> pq_filters (parseQuery ''from:'' FILTER_TOKENS) = []
   \<and> pq_keywords (parseQuery ''from:'' FILTER_TOKENS) = [''from:'']"
  by code_simp

section \<open>The other party of a one-to-one conversation\<close>

lemma findE_truthy:
  "list_all truthy ps \<Longrightarrow> (\<And>p. truthy p \<Longrightarrow> f p = Inr (g p)) \<Longrightarrow> findE f ps = Inr (find g ps)"
  by (induction ps) auto

lemma truthy_not_nullish: "truthy p \<Longrightarrow> \<not> nullish p"
  by (cases p) auto

lemma isObj_not_nullish: "isObj p \<Longrightarrow> \<not> nullish p"
  by (cases p) auto

lemma isObj_truthy: "isObj p \<Longrightarrow> truthy p"
  by (cases p) auto

lemma find_truthy: "list_all truthy ps \<Longrightarrow> find g ps = Some p \<Longrightarrow> truthy p"
  by (induction ps) (auto split: if_splits)

lemma getOtherUserId_try_objects:
  assumes dec: "decodeSummary jp summary = Some (JArr ps)" and objs: "list_all truthy ps"
  shows "getOtherUserId_try jp summary logged title =
     Inr (case resolveOther logged title ps of None \<Rightarrow> JNull | Some p \<Rightarrow> zuidOrNull p)"
proof -
  have A: "findE (differsFrom logged) ps
             = Inr (find (\<lambda>p. js_String (getProp p ''zuid'') \<noteq> js_String logged) ps)"
    by (rule findE_truthy [OF objs]) (simp add: differsFrom_def truthy_not_nullish)
  have B: "findE (dnameIs title) ps = Inr (find (\<lambda>p. strictEq (getProp p ''dname'') title) ps)"
    by (rule findE_truthy [OF objs]) (simp add: dnameIs_def truthy_not_nullish)
  have src: "(case summary of
              JStr s \<Rightarrow> (case jp s of None \<Rightarrow> Inl SyntaxError | Some v \<Rightarrow> Inr v)
            | _ \<Rightarrow> Inr (orElse summary (JArr []))) = Inr (JArr ps)"
    using dec by (auto simp: decodeSummary_def split: jv.splits option.splits)
  have tA: "\<And>p. find (\<lambda>p. js_String (getProp p ''zuid'') \<noteq> js_String logged) ps = Some p \<Longrightarrow> truthy p"
    using objs find_truthy by blast
  have tB: "\<And>p. find (\<lambda>p. strictEq (getProp p ''dname'') title) ps = Some p \<Longrightarrow> truthy p"
    using objs find_truthy by blast
  have nullz: "zuidOrNull JNull = JNull"
    by (simp add: zuidOrNull_def orElse_def)
  show ?thesis
    unfolding getOtherUserId_try_def src
    by (auto simp: A B resolveOther_def strategyA_def strategyB_def strategyC_def nullz tA tB
        split: option.splits list.splits)
qed

lemma getOtherUserId_try_undecoded:
  "decodeSummary jp summary = None \<Longrightarrow> getOtherUserId_try jp summary logged title = Inl SyntaxError"
proof -
  assume dec: "decodeSummary jp summary = None"
  have src: "(case summary of
              JStr s \<Rightarrow> (case jp s of None \<Rightarrow> Inl SyntaxError | Some v \<Rightarrow> Inr v)
            | _ \<Rightarrow> Inr (orElse summary (JArr []))) = Inl SyntaxError"
    using dec by (auto simp: decodeSummary_def split: jv.splits option.splits)
  show ?thesis
    unfolding getOtherUserId_try_def src by simp
qed

lemma getOtherUserId_try_not_array:
  "decodeSummary jp summary = Some v \<Longrightarrow> \<not> isArr v
     \<Longrightarrow> getOtherUserId_try jp summary logged title = Inr JNull"
proof -
  assume dec: "decodeSummary jp summary = Some v" and na: "\<not> isArr v"
  have src: "(case summary of
              JStr s \<Rightarrow> (case jp s of None \<Rightarrow> Inl SyntaxError | Some v \<Rightarrow> Inr v)
            | _ \<Rightarrow> Inr (orElse summary (JArr []))) = Inr v"
    using dec by (auto simp: decodeSummary_def split: jv.splits option.splits)
  show ?thesis
    unfolding getOtherUserId_try_def src using na by (cases v) simp_all
qed

lemma zuidOrNull_truthy:
  "truthy p \<Longrightarrow> zuidOrNull p = (if truthy (getProp p ''zuid'') then getProp p ''zuid'' else JNull)"
  by (simp add: zuidOrNull_def orElse_def truthy_not_nullish)

lemma resolveOther_truthy:
  "list_all truthy ps \<Longrightarrow> resolveOther logged title ps = Some p \<Longrightarrow> truthy p"
proof -
  assume objs: "list_all truthy ps" and r: "resolveOther logged title ps = Some p"
  have "p \<in> set ps"
    using r by (auto simp: resolveOther_def strategyA_def strategyB_def strategyC_def find_Some_iff
        split: option.splits if_splits list.splits)
  with objs show ?thesis by (simp add: list_all_iff)
qed

text \<open>
  C3, as the code has it. \<open>getOtherUserId\<close> decodes the summary (a string through
  \<open>JSON.parse\<close>, an array as it is). When the decoded value is an array whose
  participants are all truthy (an object is; null, undefined, 0, the empty string
  and false are not), it applies the three strategies in order: the first
  participant whose zuid differs from the logged-in identifier, else the first
  participant whose dname equals the chat title, else the only participant; it
  returns that participant's zuid when the zuid is truthy and null when it is not,
  and null when every strategy fails. It returns null, never an exception, when
  decoding fails, when the decoded value is not an array, and when anything inside
  throws.
\<close>

theorem getOtherUserId_resolution:
  "(decodeSummary jp summary = None \<longrightarrow> getOtherUserId jp summary logged title = JNull)
   \<and> (\<forall>v. decodeSummary jp summary = Some v \<longrightarrow> \<not> isArr v
          \<longrightarrow> getOtherUserId jp summary logged title = JNull)
   \<and> (\<forall>ps. decodeSummary jp summary = Some (JArr ps) \<longrightarrow> list_all truthy ps
          \<longrightarrow> getOtherUserId jp summary logged title =
              (case resolveOther logged title ps of
                 None \<Rightarrow> JNull
               | Some p \<Rightarrow> if truthy (getProp p ''zuid'') then getProp p ''zuid'' else JNull))
   \<and> (\<forall>e. getOtherUserId_try jp summary logged title = Inl e
          \<longrightarrow> getOtherUserId jp summary logged title = JNull)"
proof (intro conjI allI impI)
  assume "decodeSummary jp summary = None"
  then show "getOtherUserId jp summary logged title = JNull"
    by (simp add: getOtherUserId_def getOtherUserId_try_undecoded)
next
  fix v assume "decodeSummary jp summary = Some v" "\<not> isArr v"
  then show "getOtherUserId jp summary logged title = JNull"
    by (simp add: getOtherUserId_def getOtherUserId_try_not_array)
next
  fix ps assume dec: "decodeSummary jp summary = Some (JArr ps)" and objs: "list_all truthy ps"
  have "getOtherUserId jp summary logged title =
          (case resolveOther logged title ps of None \<Rightarrow> JNull | Some p \<Rightarrow> zuidOrNull p)"
    by (simp add: getOtherUserId_def getOtherUserId_try_objects [OF dec objs])
  also have "\<dots> = (case resolveOther logged title ps of
                 None \<Rightarrow> JNull
               | Some p \<Rightarrow> if truthy (getProp p ''zuid'') then getProp p ''zuid'' else JNull)"
    using resolveOther_truthy [OF objs] by (auto split: option.splits simp: zuidOrNull_truthy)
  finally show "getOtherUserId jp summary logged title =
              (case resolveOther logged title ps of
                 None \<Rightarrow> JNull
               | Some p \<Rightarrow> if truthy (getProp p ''zuid'') then getProp p ''zuid'' else JNull)" .
next
  fix e assume "getOtherUserId_try jp summary logged title = Inl e"
  then show "getOtherUserId jp summary logged title = JNull"
    by (simp add: getOtherUserId_def)
qed


lemmas resolve_eval = decodeSummary_def resolveOther_def strategyA_def strategyB_def
  strategyC_def orElse_def exAlice_def exBob_def exJSON_def

theorem getOtherUserId_resolution_witness:
  "getOtherUserId exJSON (JArr [exAlice, exBob]) (JStr ''2'') (JStr ''Alice'') = JStr ''1''
   \<and> getOtherUserId exJSON (JStr ''[A,B]'') JUndefined (JStr ''Alice'') = JStr ''1''
   \<and> getOtherUserId exJSON (JArr [exBob]) JUndefined JUndefined = JStr ''2''
   \<and> getOtherUserId exJSON (JArr [exAlice, exBob]) JUndefined JUndefined = JNull
   \<and> getOtherUserId exJSON (JStr ''[A,'') (JStr ''2'') (JStr ''Alice'') = JNull
   \<and> getOtherUserId exJSON (JStr ''{}'') (JStr ''2'') (JStr ''Alice'') = JNull"
proof (intro conjI)
  show "getOtherUserId exJSON (JArr [exAlice, exBob]) (JStr ''2'') (JStr ''Alice'') = JStr ''1''"
    using getOtherUserId_resolution [of exJSON "JArr [exAlice, exBob]" "JStr ''2''" "JStr ''Alice''"]
    by (simp add: resolve_eval)
  show "getOtherUserId exJSON (JStr ''[A,B]'') JUndefined (JStr ''Alice'') = JStr ''1''"
    using getOtherUserId_resolution [of exJSON "JStr ''[A,B]''" JUndefined "JStr ''Alice''"]
    by (simp add: resolve_eval)
  show "getOtherUserId exJSON (JArr [exBob]) JUndefined JUndefined = JStr ''2''"
    using getOtherUserId_resolution [of exJSON "JArr [exBob]" JUndefined JUndefined]
    by (simp add: resolve_eval)
  show "getOtherUserId exJSON (JArr [exAlice, exBob]) JUndefined JUndefined = JNull"
    using getOtherUserId_resolution [of exJSON "JArr [exAlice, exBob]" JUndefined JUndefined]
    by (simp add: resolve_eval)
  show "getOtherUserId exJSON (JStr ''[A,'') (JStr ''2'') (JStr ''Alice'') = JNull"
    using getOtherUserId_resolution [of exJSON "JStr ''[A,''" "JStr ''2''" "JStr ''Alice''"]
    by (simp add: resolve_eval)
  show "getOtherUserId exJSON (JStr ''{}'') (JStr ''2'') (JStr ''Alice'') = JNull"
    using getOtherUserId_resolution [of exJSON "JStr ''{}''" "JStr ''2''" "JStr ''Alice''"]
    by (simp add: resolve_eval)
qed

text \<open>
  C3 as stated fails twice. A participant resolved by the title whose zuid is the
  number 0: the function returns null, not that zuid. And a participant that is no
  object: in \<open>[0, Alice]\<close> with the logged-in identifier 2, the first
  participant whose zuid differs from the identifier is 0 (it has no zuid), yet the
  function goes on to the title and returns the zuid of Alice.
\<close>

theorem getOtherUserId_resolution_counterexample:
  "strategyA JUndefined [exZero, exBob] = None
   \<and> strategyB (JStr ''Alice'') [exZero, exBob] = Some exZero
   \<and> getProp exZero ''zuid'' = JNum 0
   \<and> getOtherUserId exJSON (JArr [exZero, exBob]) JUndefined (JStr ''Alice'') = JNull
   \<and> strategyA (JStr ''2'') [JNum 0, exAlice] = Some (JNum 0)
   \<and> getOtherUserId exJSON (JArr [JNum 0, exAlice]) (JStr ''2'') (JStr ''Alice'') = JStr ''1''"
  by code_simp

section \<open>The pipeline: trace, outcome and state\<close>

lemma moduleCalls_append: "moduleCalls (xs @ ys) = moduleCalls xs @ moduleCalls ys"
  by (induction xs rule: moduleCalls.induct) simp_all

lemma moduleCalls_map: "moduleCalls (map (ModuleCall \<circ> f) ms) = map f ms"
  by (induction ms) simp_all

lemma caught_trace: "r_trace (caught e st tr cs us) = tr"
  by (simp add: caught_def)

lemma caught_outcome:
  "r_outcome (caught e st tr cs us) = (if e = AbortError then FulfilledAborted else RejectedWith e)"
  by (simp add: caught_def)

lemma mergeStage_moduleCalls:
  "moduleCalls (r_trace (mergeStage ev st1 p cr rawServer tr cs us)) = moduleCalls tr"
  by (simp add: mergeStage_def Let_def caught_trace moduleCalls_append split: sum.splits)







lemma cache_pending: "cache (pending st) = cache st"
  by (simp add: pending_def)

lemma cacheHit_pending: "cacheHit ev (pending st) p = cacheHit ev st p"
  by (simp add: cacheHit_def cache_pending)

lemma executeSearch_hit:
  "cacheHit ev st p = Some c \<Longrightarrow>
     executeSearch ev st p =
       \<lparr>r_outcome = Fulfilled (ce_results c) True, r_state = fulfilled (pending st) (ce_results c),
        r_trace = [], r_chatsAfter = p_chats p, r_usersAfter = p_users p\<rparr>"
  by (simp add: executeSearch_def Let_def cacheHit_pending)

lemma executeSearch_miss:
  "cacheHit ev st p = None \<Longrightarrow> executeSearch ev st p = pipeline ev (pending st) p"
  by (simp add: executeSearch_def Let_def cacheHit_pending)



lemma pipeline_moduleCalls:
  assumes "buildExclusionSets (jsonParse ev) (p_chats p) (p_users p) (loggedUserZuidOf p)
             = Inr (cids, uids)"
    and "runClientSearch (jsonParse ev) (p_chats p) (p_users p)
           (toLowerCase (pq_trimmed (p_parsedQuery p))) (loggedUserZuidOf p) = Inr (cc, cu, cr)"
  shows "moduleCalls (r_trace (pipeline ev st p)) =
           map fst (responses (serverStage ev p cids uids cc cu))"
  by (simp add: pipeline_def Let_def assms mergeStage_moduleCalls moduleCalls_append moduleCalls_map)

lemma serverStage_calls:
  "map fst (responses (serverStage ev p cids uids cc cu)) =
     (if length cc < 15 \<or> length cu < 15
      then ''globalsearch'' # tl (map fst (responses (serverStage ev p cids uids cc cu)))
      else [])"
  by (simp add: serverStage_def buildServerPromises_def Let_def)

text \<open>
  C5. On a cache miss, once the exclusion sets and the local stage have returned,
  remote module calls are issued exactly when the local stage produced fewer than 15
  chat matches or fewer than 15 person matches; the global call is then among them.
  With 15 or more of both, no module is called.
\<close>

theorem executeSearch_remote_fetch_iff_sparse:
  "cacheHit ev st p = None
   \<and> buildExclusionSets (jsonParse ev) (p_chats p) (p_users p) (loggedUserZuidOf p) = Inr ex
   \<and> runClientSearch (jsonParse ev) (p_chats p) (p_users p)
        (toLowerCase (pq_trimmed (p_parsedQuery p))) (loggedUserZuidOf p) = Inr (cc, cu, cr)
   \<longrightarrow> (moduleCalls (r_trace (executeSearch ev st p)) \<noteq> [] \<longleftrightarrow> length cc < 15 \<or> length cu < 15)
       \<and> (length cc < 15 \<or> length cu < 15
            \<longrightarrow> ''globalsearch'' \<in> set (moduleCalls (r_trace (executeSearch ev st p))))
       \<and> (15 \<le> length cc \<and> 15 \<le> length cu
            \<longrightarrow> moduleCalls (r_trace (executeSearch ev st p)) = [])"
proof (intro impI)
  assume h: "cacheHit ev st p = None
   \<and> buildExclusionSets (jsonParse ev) (p_chats p) (p_users p) (loggedUserZuidOf p) = Inr ex
   \<and> runClientSearch (jsonParse ev) (p_chats p) (p_users p)
        (toLowerCase (pq_trimmed (p_parsedQuery p))) (loggedUserZuidOf p) = Inr (cc, cu, cr)"
  obtain cids uids where ex: "ex = (cids, uids)" by (cases ex)
  have run: "executeSearch ev st p = pipeline ev (pending st) p"
    using h by (simp add: executeSearch_miss)
  have calls: "moduleCalls (r_trace (executeSearch ev st p)) =
           map fst (responses (serverStage ev p cids uids cc cu))"
    unfolding run using h ex by (intro pipeline_moduleCalls) simp_all
  show "(moduleCalls (r_trace (executeSearch ev st p)) \<noteq> [] \<longleftrightarrow> length cc < 15 \<or> length cu < 15)
       \<and> (length cc < 15 \<or> length cu < 15
            \<longrightarrow> ''globalsearch'' \<in> set (moduleCalls (r_trace (executeSearch ev st p))))
       \<and> (15 \<le> length cc \<and> 15 \<le> length cu
            \<longrightarrow> moduleCalls (r_trace (executeSearch ev st p)) = [])"
    unfolding calls
    using serverStage_calls [of ev p cids uids cc cu]
    by (metis linorder_not_less list.distinct(1) list.set_intros(1))
qed

section \<open>The merged result list\<close>

lemma filterE_Inr:
  "filterE f xs = Inr ys \<Longrightarrow> ys = filter (\<lambda>x. f x = Inr True) xs \<and> (\<forall>x\<in>set xs. \<exists>b. f x = Inr b)"
  by (induction xs arbitrary: ys) (auto split: sum.splits if_splits)

lemma someE_False: "someE f xs = Inr False \<Longrightarrow> \<forall>x\<in>set xs. f x = Inr False"
  by (induction xs) (auto split: sum.splits if_splits)




















lemma runClientSearch_results:
  "runClientSearch jp cs us q z = Inr (cc, cu, cr) \<Longrightarrow> cr = cc @ cu"
  by (auto simp: runClientSearch_def Let_def split: sum.splits)

lemma mergeStage_fulfilled:
  assumes "r_outcome (mergeStage ev st1 p cr rawServer tr cs us) = Fulfilled final b"
  shows "\<exists>sr merged.
           rankResults rawServer (pq_keywords (p_parsedQuery p)) (pq_phrase (p_parsedQuery p))
             (resolveFieldsOf p) (getWeightOf p)
             (case p_scorerConfig p of None \<Rightarrow> DEFAULT_matchScores | Some sc \<Rightarrow> sc) = Inr sr
           \<and> mergeResults (resolveDedupKeyOf ev p) cr sr = Inr merged
           \<and> final = applyMax (p_maxResults p) merged \<and> b = False
           \<and> cache (r_state (mergeStage ev st1 p cr rawServer tr cs us)) =
               mapSet (cache st1) (toLowerCase (pq_trimmed (p_parsedQuery p)))
                 \<lparr>ce_results = final, ce_timestamp = now_write ev,
                  ce_activeCategory = p_activeCategory p\<rparr>"
  using assms
  by (auto simp: mergeStage_def Let_def caught_def fulfilled_def setCacheEntry_def
      split: sum.splits if_splits)

lemma pipeline_fulfilled:
  assumes "r_outcome (pipeline ev st p) = Fulfilled final b"
  shows "\<exists>cids uids cc cu sr merged.
           buildExclusionSets (jsonParse ev) (p_chats p) (p_users p) (loggedUserZuidOf p)
             = Inr (cids, uids)
           \<and> runClientSearch (jsonParse ev) (p_chats p) (p_users p)
               (toLowerCase (pq_trimmed (p_parsedQuery p))) (loggedUserZuidOf p)
             = Inr (cc, cu, cc @ cu)
           \<and> rankResults (concat (map snd (responses (serverStage ev p cids uids cc cu))))
               (pq_keywords (p_parsedQuery p)) (pq_phrase (p_parsedQuery p))
               (resolveFieldsOf p) (getWeightOf p)
               (case p_scorerConfig p of None \<Rightarrow> DEFAULT_matchScores | Some sc \<Rightarrow> sc) = Inr sr
           \<and> mergeResults (resolveDedupKeyOf ev p) (cc @ cu) sr = Inr merged
           \<and> final = applyMax (p_maxResults p) merged \<and> b = False
           \<and> cache (r_state (pipeline ev st p)) =
               mapSet (cache st) (toLowerCase (pq_trimmed (p_parsedQuery p)))
                 \<lparr>ce_results = final, ce_timestamp = now_write ev,
                  ce_activeCategory = p_activeCategory p\<rparr>"
proof (cases "buildExclusionSets (jsonParse ev) (p_chats p) (p_users p) (loggedUserZuidOf p)")
  case (Inl e)
  with assms show ?thesis by (simp add: pipeline_def Let_def)
next
  case (Inr ids)
  obtain cids uids where ids: "ids = (cids, uids)" by (cases ids)
  show ?thesis
  proof (cases "runClientSearch (jsonParse ev) (p_chats p) (p_users p)
               (toLowerCase (pq_trimmed (p_parsedQuery p))) (loggedUserZuidOf p)")
    case (Inl e)
    with assms Inr ids show ?thesis
      by (simp add: pipeline_def Let_def caught_def split: if_splits)
  next
    case local: (Inr res)
    obtain cc cu cr where res: "res = (cc, cu, cr)" by (cases res)
    have cr: "cr = cc @ cu"
      using local res runClientSearch_results by blast
    let ?st1 = "updateResults st (map ClientItem cr) True"
    let ?fetch = "serverStage ev p cids uids cc cu"
    let ?ms = "mergeStage ev ?st1 p cr (concat (map snd (responses ?fetch)))
                 ([AbortPrevious, ExclusionSets, ClientSearch, PartialResults]
                      @ map ModuleCall (map fst (responses ?fetch)) @ [Enrich])
                 (fst (enrichChats (globalSearchResults ?fetch) (p_chats p, cids)))
                 (fst (enrichUsers (usersApiResults ?fetch) (p_users p, uids)))"
    have run: "pipeline ev st p = ?ms"
      by (simp add: pipeline_def Let_def Inr ids local res)
    from assms have "r_outcome ?ms = Fulfilled final b"
      by (simp add: run)
    from mergeStage_fulfilled [OF this] obtain sr merged where
      "rankResults (concat (map snd (responses ?fetch)))
               (pq_keywords (p_parsedQuery p)) (pq_phrase (p_parsedQuery p))
               (resolveFieldsOf p) (getWeightOf p)
               (case p_scorerConfig p of None \<Rightarrow> DEFAULT_matchScores | Some sc \<Rightarrow> sc) = Inr sr"
      "mergeResults (resolveDedupKeyOf ev p) cr sr = Inr merged"
      "final = applyMax (p_maxResults p) merged" "b = False"
      "cache (r_state ?ms) =
               mapSet (cache ?st1) (toLowerCase (pq_trimmed (p_parsedQuery p)))
                 \<lparr>ce_results = final, ce_timestamp = now_write ev,
                  ce_activeCategory = p_activeCategory p\<rparr>"
      by blast
    then show ?thesis
      unfolding run using Inr ids local res cr
      by (auto simp: updateResults_def)
  qed
qed

lemma executeSearch_fulfilled_fresh:
  assumes "r_outcome (executeSearch ev st p) = Fulfilled final False"
  shows "executeSearch ev st p = pipeline ev (pending st) p"
proof (cases "cacheHit ev st p")
  case None
  then show ?thesis by (rule executeSearch_miss)
next
  case (Some c)
  from assms show ?thesis by (simp add: executeSearch_hit [OF Some])
qed


section \<open>The response cache\<close>

lemma filter_key_absent: "k \<notin> fst ` set kvs \<Longrightarrow> filter (\<lambda>kv. fst kv = k) kvs = []"
  by (induction kvs) auto

lemma filter_key_mapSet:
  "distinct (map fst kvs) \<Longrightarrow> filter (\<lambda>kv. fst kv = k) (mapSet kvs k v) = [(k, v)]"
  by (induction kvs) (auto simp: filter_key_absent)

lemma distinct_filter_cache:
  "distinct (map fst kvs) \<Longrightarrow> distinct (map fst (filter P kvs))"
  by (rule distinct_map_filter)

text \<open>
  C10. The cache key is the lowercased trimmed query text alone; the category is a
  field of the entry. With one entry per key to start with, every reducer keeps one
  entry per key; \<open>setCacheEntry\<close> leaves exactly the entry it wrote under its key,
  so a second write under the key replaces the first; and after an invocation has
  written its result, the only entry for the query is the one of that invocation's
  category, whatever was stored for the query before.
\<close>

theorem cache_one_entry_per_query:
  "distinct (map fst (cache st)) \<longrightarrow>
     distinct (map fst (cache (setCacheEntry st key v)))
     \<and> distinct (map fst (cache (clearExpiredCache st t)))
     \<and> distinct (map fst (cache (clearAllCache st)))
     \<and> filter (\<lambda>kv. fst kv = key) (cache (setCacheEntry st key v)) = [(key, v)]
     \<and> filter (\<lambda>kv. fst kv = key) (cache (setCacheEntry (setCacheEntry st key v) key v'))
          = [(key, v')]
     \<and> (r_outcome (executeSearch ev st p) = Fulfilled final False \<longrightarrow>
          distinct (map fst (cache (r_state (executeSearch ev st p))))
          \<and> filter (\<lambda>kv. fst kv = toLowerCase (pq_trimmed (p_parsedQuery p)))
               (cache (r_state (executeSearch ev st p)))
             = [(toLowerCase (pq_trimmed (p_parsedQuery p)),
                 \<lparr>ce_results = final, ce_timestamp = now_write ev,
                  ce_activeCategory = p_activeCategory p\<rparr>)])"
proof (intro impI conjI)
  assume d: "distinct (map fst (cache st))"
  show d1: "distinct (map fst (cache (setCacheEntry st key v)))"
    using d by (simp add: setCacheEntry_def distinct_mapSet)
  show "distinct (map fst (cache (clearExpiredCache st t)))"
    using d by (simp add: clearExpiredCache_def distinct_map_filter)
  show "distinct (map fst (cache (clearAllCache st)))"
    by (simp add: clearAllCache_def)
  show "filter (\<lambda>kv. fst kv = key) (cache (setCacheEntry st key v)) = [(key, v)]"
    using d by (simp add: setCacheEntry_def filter_key_mapSet)
  show "filter (\<lambda>kv. fst kv = key) (cache (setCacheEntry (setCacheEntry st key v) key v'))
          = [(key, v')]"
    using d by (simp add: setCacheEntry_def filter_key_mapSet distinct_mapSet)
next
  assume d: "distinct (map fst (cache st))"
    and a: "r_outcome (executeSearch ev st p) = Fulfilled final False"
  have run: "executeSearch ev st p = pipeline ev (pending st) p"
    by (rule executeSearch_fulfilled_fresh [OF a])
  have "r_outcome (pipeline ev (pending st) p) = Fulfilled final False"
    using a run by simp
  from pipeline_fulfilled [OF this]
  have c: "cache (r_state (executeSearch ev st p)) =
             mapSet (cache st) (toLowerCase (pq_trimmed (p_parsedQuery p)))
               \<lparr>ce_results = final, ce_timestamp = now_write ev,
                ce_activeCategory = p_activeCategory p\<rparr>"
    unfolding run by (auto simp: cache_pending)
  show "distinct (map fst (cache (r_state (executeSearch ev st p))))"
    unfolding c using d by (rule distinct_mapSet)
  show "filter (\<lambda>kv. fst kv = toLowerCase (pq_trimmed (p_parsedQuery p)))
               (cache (r_state (executeSearch ev st p)))
             = [(toLowerCase (pq_trimmed (p_parsedQuery p)),
                 \<lparr>ce_results = final, ce_timestamp = now_write ev,
                  ce_activeCategory = p_activeCategory p\<rparr>)]"
    unfolding c using d by (rule filter_key_mapSet)
qed

section \<open>Exceptions of the local search stage\<close>

lemma mapE_Inl:
  assumes "x \<in> set xs" and "f x = Inl e" and all: "\<And>y e'. f y = Inl e' \<Longrightarrow> e' = e"
  shows "mapE f xs = Inl e"
  using assms(1)
proof (induction xs)
  case Nil
  then show ?case by simp
next
  case (Cons a xs)
  show ?case
  proof (cases "f a")
    case (Inl e')
    then have "e' = e" by (rule all)
    with Inl show ?thesis by simp
  next
    case (Inr y)
    with assms(2) have "a \<noteq> x" by auto
    with Cons.prems have "x \<in> set xs" by simp
    then have "mapE f xs = Inl e" by (rule Cons.IH)
    with Inr show ?thesis by simp
  qed
qed

lemma mapE_total: "\<forall>x\<in>set xs. \<exists>y. f x = Inr y \<Longrightarrow> \<exists>ys. mapE f xs = Inr ys"
proof (induction xs)
  case Nil
  show ?case by simp
next
  case (Cons x xs)
  from Cons.prems obtain y where y: "f x = Inr y"
    by (meson list.set_intros(1))
  from Cons.prems have "\<forall>x\<in>set xs. \<exists>y. f x = Inr y"
    by (meson list.set_intros(2))
  then obtain ys where ys: "mapE f xs = Inr ys"
    using Cons.IH by blast
  show ?case by (simp add: y ys)
qed

lemma mapE_Inr_set: "mapE f xs = Inr ys \<Longrightarrow> \<forall>y\<in>set ys. \<exists>x\<in>set xs. f x = Inr y"
proof (induction xs arbitrary: ys)
  case Nil
  then show ?case by simp
next
  case (Cons a xs)
  from Cons.prems obtain b bs where b: "f a = Inr b" and bs: "mapE f xs = Inr bs"
    and ys: "ys = b # bs"
    by (auto split: sum.splits)
  from Cons.IH [OF bs] b show ?case
    unfolding ys by simp
qed

lemma filterE_total: "\<forall>x\<in>set xs. \<exists>b. f x = Inr b \<Longrightarrow> \<exists>ys. filterE f xs = Inr ys"
proof (induction xs)
  case Nil
  show ?case by simp
next
  case (Cons x xs)
  from Cons.prems obtain b where b: "f x = Inr b"
    by (meson list.set_intros(1))
  from Cons.prems have "\<forall>x\<in>set xs. \<exists>b. f x = Inr b"
    by (meson list.set_intros(2))
  then obtain ys where ys: "filterE f xs = Inr ys"
    using Cons.IH by blast
  show ?case by (simp add: b ys)
qed

lemma clientChat_error: "clientChat jp z c = Inl e \<Longrightarrow> e = TypeError"
  by (cases "getProp c ''title''") (auto simp: clientChat_def split: if_splits)

lemma clientChat_throws: "\<not> isStr (getProp c ''title'') \<Longrightarrow> clientChat jp z c = Inl TypeError"
  by (cases "getProp c ''title''") (auto simp: clientChat_def)

lemma isStr_getProp_not_nullish: "isStr (getProp c k) \<Longrightarrow> \<not> nullish c"
  by (cases c) auto

lemma clientChat_returns:
  assumes "isStr (getProp c ''title'')"
  shows "\<exists>y. clientChat jp z c = Inr y"
proof -
  from assms obtain t where t: "getProp c ''title'' = JStr t"
    by (cases "getProp c ''title''") auto
  have "\<not> nullish c"
    using assms by (rule isStr_getProp_not_nullish)
  then show ?thesis
    by (simp add: clientChat_def t)
qed

lemma runClientSearch_throws:
  assumes "c \<in> set (take MAX_CLIENT_CHATS chats)" and "\<not> isStr (getProp c ''title'')"
  shows "runClientSearch jp chats users q z = Inl TypeError"
proof -
  have "mapE (clientChat jp z) (take MAX_CLIENT_CHATS chats) = Inl TypeError"
    using assms(1) clientChat_throws [OF assms(2)] clientChat_error by (rule mapE_Inl)
  then show ?thesis
    by (simp add: runClientSearch_def)
qed

lemma getProp_mapSet:
  "getProp (JObj (mapSet kvs k v)) k' = (if k' = k then v else getProp (JObj kvs) k')"
  by (simp add: map_of_mapSet)

lemma stringField_orElse:
  assumes "stringField a" and "isStr b"
  shows "isStr (orElse a b)"
proof (cases "truthy a")
  case True
  with assms(1) show ?thesis by (simp add: stringField_def orElse_def)
next
  case False
  with assms(2) show ?thesis by (simp add: orElse_def)
qed

lemma userMatches_returns:
  assumes "wellFormedUser u" and "clientUser u = Inr u'"
  shows "\<exists>b. userMatches q zs u' = Inr b"
proof -
  from assms(1) obtain kvs where u: "u = JObj kvs"
    by (cases u) (auto simp: wellFormedUser_def)
  from assms(2) have u': "u' = JObj (mapSet (mapSet (mapSet kvs ''_module'' (JStr ''users''))
        ''_source'' (JStr ''client'')) ''id''
        (orElse (getProp u ''Zuid'') (orElse (getProp u ''zuid'') (getProp u ''id''))))"
    by (simp add: clientUser_def u)
  have props: "getProp u' ''full_name'' = getProp u ''full_name''"
    "getProp u' ''display_name'' = getProp u ''display_name''"
    "getProp u' ''email'' = getProp u ''email''"
    unfolding u' by (simp_all only: getProp_mapSet) (simp_all add: u)
  have n: "isStr (orElse (getProp u' ''full_name'') (orElse (getProp u' ''display_name'') (JStr '''')))"
    using assms(1) unfolding props wellFormedUser_def
    by (intro stringField_orElse) simp_all
  have e: "isStr (orElse (getProp u' ''email'') (JStr ''''))"
    using assms(1) unfolding props wellFormedUser_def
    by (intro stringField_orElse) simp_all
  from n obtain ns where ns: "orElse (getProp u' ''full_name'')
      (orElse (getProp u' ''display_name'') (JStr '''')) = JStr ns"
    by (cases "orElse (getProp u' ''full_name'') (orElse (getProp u' ''display_name'') (JStr ''''))")
      auto
  from e obtain es where es: "orElse (getProp u' ''email'') (JStr '''') = JStr es"
    by (cases "orElse (getProp u' ''email'') (JStr '''')") auto
  show ?thesis
    by (simp add: userMatches_def ns es)
qed

lemma runClientSearch_returns:
  assumes chats: "\<forall>c\<in>set (take MAX_CLIENT_CHATS chats). isStr (getProp c ''title'')"
    and users: "\<forall>u\<in>set (take MAX_CLIENT_USERS users). wellFormedUser u"
  shows "\<exists>r. runClientSearch jp chats users q z = Inr r"
proof -
  obtain mapped where m: "mapE (clientChat jp z) (take MAX_CLIENT_CHATS chats) = Inr mapped"
    using mapE_total [of "take MAX_CLIENT_CHATS chats" "clientChat jp z"] chats clientChat_returns
    by blast
  have "\<forall>u\<in>set (take MAX_CLIENT_USERS users). \<exists>y. clientUser u = Inr y"
    using users by (auto simp: clientUser_def wellFormedUser_def isObj_not_nullish)
  then obtain mu where mu: "mapE clientUser (take MAX_CLIENT_USERS users) = Inr mu"
    using mapE_total by blast
  let ?cc = "sort_key (\<lambda>c. - scoreNum c) (filter (chatMatches q) mapped)"
  let ?zs = "map (\<lambda>c. js_String (getProp c ''id''))
               (filter (\<lambda>c. strictEq (getProp c ''_module'') (JStr ''users'')) ?cc)"
  have "\<forall>u'\<in>set mu. \<exists>b. userMatches q ?zs u' = Inr b"
    using mapE_Inr_set [OF mu] users userMatches_returns by blast
  then obtain cu where cu: "filterE (userMatches q ?zs) mu = Inr cu"
    using filterE_total by blast
  have "runClientSearch jp chats users q z = Inr (?cc, cu, ?cc @ cu)"
    by (simp add: runClientSearch_def Let_def m mu cu)
  then show ?thesis by blast
qed

lemma buildExclusionSets_chats_error:
  "buildExclusionSets_chats jp z cs acc = Inl e \<Longrightarrow> e = TypeError"
proof (induction cs arbitrary: acc)
  case Nil
  then show ?case by simp
next
  case (Cons c cs)
  obtain a b where acc: "acc = (a, b)" by (cases acc)
  show ?case
  proof (cases "nullish c")
    case True
    with Cons.prems show ?thesis by (simp add: acc)
  next
    case False
    with Cons.prems obtain acc' where "buildExclusionSets_chats jp z cs acc' = Inl e"
      by (simp add: acc Let_def)
    then show ?thesis by (rule Cons.IH)
  qed
qed

lemma buildExclusionSets_users_error:
  "buildExclusionSets_users us acc = Inl e \<Longrightarrow> e = TypeError"
proof (induction us arbitrary: acc)
  case Nil
  then show ?case by simp
next
  case (Cons u us)
  show ?case
  proof (cases "nullish u")
    case True
    with Cons.prems show ?thesis by simp
  next
    case False
    with Cons.prems obtain acc' where "buildExclusionSets_users us acc' = Inl e"
      by simp
    then show ?thesis by (rule Cons.IH)
  qed
qed

lemma buildExclusionSets_error:
  assumes "buildExclusionSets jp cs us z = Inl e"
  shows "e = TypeError"
proof (cases "buildExclusionSets_chats jp z cs ([], [])")
  case (Inl e')
  with assms have "e' = e" by (simp add: buildExclusionSets_def)
  with Inl show ?thesis using buildExclusionSets_chats_error by blast
next
  case (Inr ids)
  obtain a b where ids: "ids = (a, b)" by (cases ids)
  from assms Inr ids have "buildExclusionSets_users us b = Inl e"
    by (simp add: buildExclusionSets_def split: sum.splits)
  then show ?thesis by (rule buildExclusionSets_users_error)
qed

lemma pipeline_rejects_uncaught:
  assumes "buildExclusionSets (jsonParse ev) (p_chats p) (p_users p) (loggedUserZuidOf p) = Inl e"
  shows "r_outcome (pipeline ev st p) = RejectedUncaught e"
  using assms by (simp add: pipeline_def Let_def)

lemma pipeline_rejects_local:
  assumes "buildExclusionSets (jsonParse ev) (p_chats p) (p_users p) (loggedUserZuidOf p)
             = Inr (a, b)"
    and "runClientSearch (jsonParse ev) (p_chats p) (p_users p)
           (toLowerCase (pq_trimmed (p_parsedQuery p))) (loggedUserZuidOf p) = Inl TypeError"
  shows "r_outcome (pipeline ev st p) = RejectedWith TypeError"
  using assms by (simp add: pipeline_def Let_def caught_outcome)

text \<open>
  C9, as the code has it. The local stage throws whenever a chat among the first 500
  has a title that is missing or not a string, and an invocation that misses the
  cache is then rejected. When every such chat's title is a string and every user
  among the first 100 is an object whose \<open>full_name\<close>, \<open>display_name\<close> and
  \<open>email\<close> are strings or falsy, the local stage returns.
\<close>

theorem runClientSearch_title_guard:
  "((\<exists>c\<in>set (take 500 chats). \<not> isStr (getProp c ''title''))
      \<longrightarrow> runClientSearch jp chats users q z = Inl TypeError)
   \<and> (cacheHit ev st p = None \<and> (\<exists>c\<in>set (take 500 (p_chats p)). \<not> isStr (getProp c ''title''))
      \<longrightarrow> r_outcome (executeSearch ev st p) = RejectedWith TypeError
          \<or> r_outcome (executeSearch ev st p) = RejectedUncaught TypeError)
   \<and> ((\<forall>c\<in>set (take 500 chats). isStr (getProp c ''title''))
       \<and> (\<forall>u\<in>set (take 100 users). wellFormedUser u)
      \<longrightarrow> (\<exists>r. runClientSearch jp chats users q z = Inr r))"
proof (intro conjI impI)
  have c500: "take 500 xs = take MAX_CLIENT_CHATS xs" for xs :: "jv list"
    by (simp only: MAX_CLIENT_CHATS_def)
  have u100: "take 100 xs = take MAX_CLIENT_USERS xs" for xs :: "jv list"
    by (simp only: MAX_CLIENT_USERS_def)
  {
    assume "\<exists>c\<in>set (take 500 chats). \<not> isStr (getProp c ''title'')"
    then obtain c where "c \<in> set (take MAX_CLIENT_CHATS chats)" "\<not> isStr (getProp c ''title'')"
      unfolding c500 by blast
    then show "runClientSearch jp chats users q z = Inl TypeError"
      by (rule runClientSearch_throws)
  }
  {
    assume h: "cacheHit ev st p = None
               \<and> (\<exists>c\<in>set (take 500 (p_chats p)). \<not> isStr (getProp c ''title''))"
    then have run: "executeSearch ev st p = pipeline ev (pending st) p"
      by (simp only: executeSearch_miss)
    from h obtain c where "c \<in> set (take MAX_CLIENT_CHATS (p_chats p))"
        "\<not> isStr (getProp c ''title'')"
      unfolding c500 by blast
    then have loc: "runClientSearch (jsonParse ev) (p_chats p) (p_users p)
        (toLowerCase (pq_trimmed (p_parsedQuery p))) (loggedUserZuidOf p) = Inl TypeError"
      by (rule runClientSearch_throws)
    show "r_outcome (executeSearch ev st p) = RejectedWith TypeError
            \<or> r_outcome (executeSearch ev st p) = RejectedUncaught TypeError"
    proof (cases "buildExclusionSets (jsonParse ev) (p_chats p) (p_users p) (loggedUserZuidOf p)")
      case (Inl e)
      then have "e = TypeError" by (rule buildExclusionSets_error)
      with Inl have "buildExclusionSets (jsonParse ev) (p_chats p) (p_users p)
          (loggedUserZuidOf p) = Inl TypeError"
        by blast
      then have "r_outcome (pipeline ev (pending st) p) = RejectedUncaught TypeError"
        by (rule pipeline_rejects_uncaught)
      then show ?thesis unfolding run by (rule disjI2)
    next
      case (Inr ids)
      obtain a b where "ids = (a, b)" by (cases ids)
      with Inr have "buildExclusionSets (jsonParse ev) (p_chats p) (p_users p)
          (loggedUserZuidOf p) = Inr (a, b)"
        by blast
      then have "r_outcome (pipeline ev (pending st) p) = RejectedWith TypeError"
        using loc by (rule pipeline_rejects_local)
      then show ?thesis unfolding run by (rule disjI1)
    qed
  }
  {
    assume "(\<forall>c\<in>set (take 500 chats). isStr (getProp c ''title''))
         \<and> (\<forall>u\<in>set (take 100 users). wellFormedUser u)"
    then have "\<forall>c\<in>set (take MAX_CLIENT_CHATS chats). isStr (getProp c ''title'')"
      and "\<forall>u\<in>set (take MAX_CLIENT_USERS users). wellFormedUser u"
      unfolding c500 u100 by blast+
    then show "\<exists>r. runClientSearch jp chats users q z = Inr r"
      by (rule runClientSearch_returns)
  }
qed

section \<open>The example invocations\<close>



lemma ex_sparse_hyp:
  "cacheHit exEnv exState exPayload = None
   \<and> buildExclusionSets (jsonParse exEnv) (p_chats exPayload) (p_users exPayload)
        (loggedUserZuidOf exPayload) = Inr ([''c1'', ''c2''], [])
   \<and> runClientSearch (jsonParse exEnv) (p_chats exPayload) (p_users exPayload)
        (toLowerCase (pq_trimmed (p_parsedQuery exPayload))) (loggedUserZuidOf exPayload)
      = Inr ([exLocal1, exLocal2], [], [exLocal1, exLocal2])"
  by code_simp

lemma mapE_replicate: "f x = Inr y \<Longrightarrow> mapE f (replicate n x) = Inr (replicate n y)"
  by (induction n) simp_all

lemma filterE_replicate: "f x = Inr True \<Longrightarrow> filterE f (replicate n x) = Inr (replicate n x)"
  by (induction n) simp_all

lemma sort_key_replicate: "sort_key f (replicate n x) = replicate n x"
  by (induction n) (simp_all add: replicate_app_Cons_same insort_is_Cons)

lemma ex_dense_chat_step:
  "buildExclusionSets_chats exJSON JUndefined (exChat2 # cs) ([''c2''], [])
     = buildExclusionSets_chats exJSON JUndefined cs ([''c2''], [])"
  "buildExclusionSets_chats exJSON JUndefined (exChat2 # cs) ([], [])
     = buildExclusionSets_chats exJSON JUndefined cs ([''c2''], [])"
  by (simp_all add: exChat2_def setAdd_def showInt_def digitChar_def Let_def)

lemma ex_dense_chats:
  "buildExclusionSets_chats exJSON JUndefined (replicate n exChat2) ([''c2''], []) = Inr ([''c2''], [])"
  by (induction n) (simp_all add: ex_dense_chat_step del: buildExclusionSets_chats.simps(2))

lemma ex_dense_user_step:
  "buildExclusionSets_users (exUser # us) [''u1''] = buildExclusionSets_users us [''u1'']"
  "buildExclusionSets_users (exUser # us) [] = buildExclusionSets_users us [''u1'']"
  by (simp_all add: exUser_def setAdd_def)

lemma ex_dense_users: "buildExclusionSets_users (replicate n exUser) [''u1''] = Inr [''u1'']"
  by (induction n) (simp_all add: ex_dense_user_step del: buildExclusionSets_users.simps(2))

lemma ex_dense_exclusion:
  "buildExclusionSets exJSON (replicate 15 exChat2) (replicate 15 exUser) JUndefined
     = Inr ([''c2''], [''u1''])"
proof -
  have c: "replicate 15 exChat2 = exChat2 # replicate 14 exChat2"
    and u: "replicate 15 exUser = exUser # replicate 14 exUser"
    by (simp_all add: numeral_eq_Suc)
  have 1: "buildExclusionSets_chats exJSON JUndefined (replicate 15 exChat2) ([], [])
             = Inr ([''c2''], [])"
    by (simp only: c ex_dense_chat_step(2) ex_dense_chats)
  have 2: "buildExclusionSets_users (replicate 15 exUser) [] = Inr [''u1'']"
    by (simp only: u ex_dense_user_step(2) ex_dense_users)
  show ?thesis
    by (simp add: buildExclusionSets_def 1 2)
qed

lemma ex_dense_steps:
  "clientChat exJSON JUndefined exChat2 = Inr exLocal2"
  "chatMatches ''al'' exLocal2"
  "\<not> strictEq (getProp exLocal2 ''_module'') (JStr ''users'')"
  "clientUser exUser = Inr exLocalUser"
  "userMatches ''al'' [] exLocalUser = Inr True"
  by code_simp+

lemma ex_dense_local:
  "runClientSearch exJSON (replicate 15 exChat2) (replicate 15 exUser) ''al'' JUndefined
     = Inr (replicate 15 exLocal2, replicate 15 exLocalUser,
            replicate 15 exLocal2 @ replicate 15 exLocalUser)"
  by (simp add: runClientSearch_def MAX_CLIENT_CHATS_def MAX_CLIENT_USERS_def Let_def
      mapE_replicate [of "clientChat exJSON JUndefined" exChat2 exLocal2, OF ex_dense_steps(1)]
      mapE_replicate [of clientUser exUser exLocalUser, OF ex_dense_steps(4)]
      ex_dense_steps(2,3) sort_key_replicate
      filterE_replicate [of "userMatches ''al'' []" exLocalUser, OF ex_dense_steps(5)])

lemma ex_dense_payload:
  "jsonParse exEnv = exJSON" "p_chats exDense = replicate 15 exChat2"
  "p_users exDense = replicate 15 exUser" "loggedUserZuidOf exDense = JUndefined"
  "pq_trimmed (p_parsedQuery exDense) = ''al''" "cache exState = []"
  by (simp_all add: exEnv_def exDense_def exPayload_def loggedUserZuidOf_def exPQ_def exState_def)

lemma ex_al: "toLowerCase ''al'' = ''al''"
  by (simp add: toLowerCase_def lowerChar_def)

lemma ex_dense_hyp:
  "cacheHit exEnv exState exDense = None
   \<and> buildExclusionSets (jsonParse exEnv) (p_chats exDense) (p_users exDense)
        (loggedUserZuidOf exDense) = Inr ([''c2''], [''u1''])
   \<and> runClientSearch (jsonParse exEnv) (p_chats exDense) (p_users exDense)
        (toLowerCase (pq_trimmed (p_parsedQuery exDense))) (loggedUserZuidOf exDense)
      = Inr (replicate 15 exLocal2, replicate 15 exLocalUser,
             replicate 15 exLocal2 @ replicate 15 exLocalUser)"
  unfolding ex_dense_payload ex_al ex_dense_exclusion ex_dense_local
  by (simp add: cacheHit_def ex_dense_payload)


lemma ex_other_outcome:
  "r_outcome (executeSearch exEnv exCached exOtherCategory) = Fulfilled exFinal False"
  by code_simp










theorem executeSearch_remote_fetch_iff_sparse_witness:
  "length [exLocal1, exLocal2] < 15
   \<and> ''globalsearch'' \<in> set (moduleCalls (r_trace (executeSearch exEnv exState exPayload)))
   \<and> 15 \<le> length (replicate 15 exLocal2) \<and> 15 \<le> length (replicate 15 exLocalUser)
   \<and> moduleCalls (r_trace (executeSearch exEnv exState exDense)) = []"
proof -
  note sparse = executeSearch_remote_fetch_iff_sparse
      [of exEnv exState exPayload "([''c1'', ''c2''], [])" "[exLocal1, exLocal2]" "[]"
          "[exLocal1, exLocal2]", rule_format, OF ex_sparse_hyp]
  note dense = executeSearch_remote_fetch_iff_sparse
      [of exEnv exState exDense "([''c2''], [''u1''])" "replicate 15 exLocal2"
          "replicate 15 exLocalUser" "replicate 15 exLocal2 @ replicate 15 exLocalUser",
       rule_format, OF ex_dense_hyp]
  have l: "length [exLocal1, exLocal2] < 15" "15 \<le> length (replicate 15 exLocal2)"
    "15 \<le> length (replicate 15 exLocalUser)"
    by simp_all
  from sparse dense l show ?thesis by blast
qed

theorem cache_one_entry_per_query_witness:
  "distinct (map fst (cache exCached))
   \<and> filter (\<lambda>kv. fst kv = ''al'') (cache (setCacheEntry exCached ''al'' exEntry2)) = [(''al'', exEntry2)]
   \<and> filter (\<lambda>kv. fst kv = ''al'') (cache (r_state (executeSearch exEnv exCached exOtherCategory)))
       = [(''al'', \<lparr>ce_results = exFinal, ce_timestamp = 2000, ce_activeCategory = ''users''\<rparr>)]"
proof -
  have d: "distinct (map fst (cache exCached))"
    by (simp add: exCached_def exState_def)
  have k: "toLowerCase (pq_trimmed (p_parsedQuery exOtherCategory)) = ''al''"
    by code_simp
  have e: "now_write exEnv = 2000" "p_activeCategory exOtherCategory = ''users''"
    by (simp_all add: exEnv_def exOtherCategory_def exPayload_def)
  note r = cache_one_entry_per_query
        [of exCached "''al''" exEntry2 0 exEntry2 exEnv exOtherCategory exFinal, rule_format, OF d]
  from r ex_other_outcome have
    "filter (\<lambda>kv. fst kv = ''al'') (cache (setCacheEntry exCached ''al'' exEntry2)) = [(''al'', exEntry2)]"
    and "filter (\<lambda>kv. fst kv = toLowerCase (pq_trimmed (p_parsedQuery exOtherCategory)))
               (cache (r_state (executeSearch exEnv exCached exOtherCategory)))
             = [(toLowerCase (pq_trimmed (p_parsedQuery exOtherCategory)),
                 \<lparr>ce_results = exFinal, ce_timestamp = now_write exEnv,
                  ce_activeCategory = p_activeCategory exOtherCategory\<rparr>)]"
    by blast+
  with d show ?thesis
    unfolding k e by blast
qed



lemma ex_no_title:
  "exNoTitle \<in> set (take 500 [exChat1, exNoTitle]) \<and> \<not> isStr (getProp exNoTitle ''title'')"
  by (simp add: exNoTitle_def)

lemma ex_well_formed:
  "isStr (getProp exChat1 ''title'') \<and> isStr (getProp exChat2 ''title'') \<and> wellFormedUser exUser"
  by (simp add: exChat1_def exChat2_def exUser_def wellFormedUser_def stringField_def)

lemma ex_no_title_ex: "\<exists>c\<in>set (take 500 [exChat1, exNoTitle]). \<not> isStr (getProp c ''title'')"
  using ex_no_title by blast

lemma ex_well_formed_all:
  "(\<forall>c\<in>set (take 500 [exChat1, exChat2]). isStr (getProp c ''title''))
   \<and> (\<forall>u\<in>set (take 100 [exUser]). wellFormedUser u)"
  using ex_well_formed by simp

theorem runClientSearch_title_guard_witness:
  "runClientSearch exJSON [exChat1, exNoTitle] [] ''al'' JUndefined = Inl TypeError
   \<and> runClientSearch exJSON [exChat1, exChat2] [exUser] ''al'' JUndefined \<noteq> Inl TypeError"
proof -
  note a = runClientSearch_title_guard
      [of "[exChat1, exNoTitle]" exJSON "[]" "''al''" JUndefined, THEN conjunct1, rule_format,
       OF ex_no_title_ex]
  note b = runClientSearch_title_guard
      [of "[exChat1, exChat2]" exJSON "[exUser]" "''al''" JUndefined, THEN conjunct2,
       THEN conjunct2, rule_format, OF ex_well_formed_all]
  from a b show ?thesis by auto
qed

text \<open>
  C9 as stated fails: with every chat title a string, a user whose \<open>full_name\<close>
  is a number makes the local stage throw.
\<close>

theorem runClientSearch_title_guard_counterexample:
  "isStr (getProp exChat1 ''title'')
   \<and> runClientSearch exJSON [exChat1] [exBadUser] ''al'' JUndefined = Inl TypeError"
proof -
  have "runClientSearch exJSON [exChat1] [exBadUser] ''al'' JUndefined = Inl TypeError"
    by code_simp
  then show ?thesis by (simp add: exChat1_def)
qed

end
